theory Spec2Isabelle
  imports Main "HOL-Library.Sublist"
begin

section \<open>Errors\<close>

text \<open>
  The error classes of \<^verbatim>\<open>exceptions.ts\<close> that the modelled code names itself are
  \<^verbatim>\<open>ConfigurationError\<close> and \<^verbatim>\<open>PluginError\<close>. Whatever a collaborator (a backend
  action, the build directory, a plugin handler) throws is opaque to the code modelled
  here and is carried as \<open>OpaqueError\<close>. A rejected promise is the \<open>Inl\<close> of a sum.
\<close>

datatype error_class = ConfigurationError | PluginError | OpaqueError

datatype garden_error = GardenError (error_kind: error_class) (error_message: string)

section \<open>Modules and the build task (tasks/build.ts)\<close>

record file_copy_spec =
  copy_source :: string
  copy_target :: string

text \<open>
  A build dependency of a resolved module. \<^verbatim>\<open>getBuildTasks\<close> tests \<^verbatim>\<open>d.copy && ...\<close>,
  so the copy list may be missing: \<open>None\<close> is \<^verbatim>\<open>undefined\<close>.
\<close>

record build_dependency_config =
  dep_name :: string
  dep_copy :: "file_copy_spec list option"

record module_version =
  versionString :: string
  files :: "string list"

record gmodule =
  m_name :: string
  m_plugin :: "string option"
  m_type :: string
  m_version :: module_version
  m_build_dependencies :: "build_dependency_config list"

text \<open>
  The result of a build: \<^verbatim>\<open>{ fresh: false }\<close> on a cache hit, otherwise whatever the
  backend's build action returns (its payload is the backend's own).
\<close>

record 'p build_result =
  fresh :: bool
  payload :: "'p option"

record build_status =
  ready :: bool

text \<open>
  What a run of \<^verbatim>\<open>process()\<close> does to the outside world, in order: the entries it
  writes to its log and the calls it makes to the build directory and to the action
  router. A call is recorded with the module it is made for and with what came back: the
  error it raised, if any, and for the status probe the status it reported. The text of
  the success message holds a duration and is left out.
\<close>

datatype event =
    LogInfo string nat
  | LogSetState string
  | LogSetSuccess
  | LogSetError
  | CallSyncFromSrc string "garden_error option"
  | CallSyncDependencyProducts string "garden_error option"
  | CallGetBuildStatus string "garden_error + build_status"
  | CallBuild string "garden_error option"

text \<open>
  The world a task runs in: the build workspace (any type \<open>'fs\<close>) and the trace of
  events so far.
\<close>

record 'fs world =
  workspace :: "'fs"
  trace :: "event list"

text \<open>
  A collaborator's asynchronous operation: it may change the workspace and it either
  resolves to a value or rejects with an error. The workspace it returns is what it left
  behind in both cases.
\<close>

type_synonym ('fs, 'a) action = "'fs \<Rightarrow> (garden_error + 'a) \<times> 'fs"

text \<open>
  The \<^verbatim>\<open>Garden\<close> object as far as \<^verbatim>\<open>tasks/build.ts\<close> uses it. None of these lives
  in the modelled file, so each is a parameter:
  \<^item> \<open>getModuleKey\<close>: \<^verbatim>\<open>getModuleKey(name, plugin)\<close> of \<^verbatim>\<open>types/module\<close>;
  \<^item> \<open>getConfigGraph\<close>: the config graph that \<^verbatim>\<open>garden.getConfigGraph\<close> hands out;
  \<^item> \<open>syncFromSrc\<close>, \<open>syncDependencyProducts\<close>: the two operations of
    \<^verbatim>\<open>garden.buildDir\<close>, the second of which is given the graph;
  \<^item> \<open>getBuildStatus\<close>, \<open>build\<close>, \<open>getModuleActionHandler\<close>: the action router's.
    \<^verbatim>\<open>getModuleActionHandler\<close> throws when no handler is registered.
  \<^verbatim>\<open>garden.getActionRouter()\<close> and \<^verbatim>\<open>garden.getConfigGraph()\<close> only hand out the router
  and the graph; they are taken to resolve.
\<close>

text \<open>
  The config graph as far as it is asked: \<^verbatim>\<open>dg.getDependencies(nodeType, name, recursive)\<close>
  and of its answer the modules under \<^verbatim>\<open>build\<close>.
\<close>

type_synonym config_graph = "string \<Rightarrow> string \<Rightarrow> bool \<Rightarrow> gmodule list"

record ('fs, 'p) garden =
  getModuleKey :: "string \<Rightarrow> string option \<Rightarrow> string"
  getConfigGraph :: config_graph
  syncFromSrc :: "gmodule \<Rightarrow> ('fs, unit) action"
  syncDependencyProducts :: "gmodule \<Rightarrow> config_graph \<Rightarrow> ('fs, unit) action"
  getBuildStatus :: "gmodule \<Rightarrow> ('fs, build_status) action"
  build :: "gmodule \<Rightarrow> ('fs, 'p build_result) action"
  getModuleActionHandler :: "string \<Rightarrow> string \<Rightarrow> garden_error + unit"

record build_task_params =
  params_module :: gmodule
  params_force :: bool
  params_fromWatch :: "bool option"
  params_hotReloadServiceNames :: "string list option"

record build_task =
  task_module :: gmodule
  task_force :: bool
  task_version :: module_version
  task_fromWatch :: bool
  task_hotReloadServiceNames :: "string list"

text \<open>The constructor, with its two defaults.\<close>

definition BuildTask :: "build_task_params \<Rightarrow> build_task" where
  "BuildTask params =
     \<lparr> task_module = params_module params,
       task_force = params_force params,
       task_version = m_version (params_module params),
       task_fromWatch = (case params_fromWatch params of None \<Rightarrow> False | Some b \<Rightarrow> b),
       task_hotReloadServiceNames =
         (case params_hotReloadServiceNames params of None \<Rightarrow> [] | Some ns \<Rightarrow> ns) \<rparr>"

definition getName :: "('fs, 'p) garden \<Rightarrow> build_task \<Rightarrow> string" where
  "getName g t = getModuleKey g (m_name (task_module t)) (m_plugin (task_module t))"

definition getDependencies :: "('fs, 'p) garden \<Rightarrow> build_task \<Rightarrow> build_task list" where
  "getDependencies g t =
     (let dg = getConfigGraph g;
          deps = dg ''build'' (getName g t) False
      in map (\<lambda>m. BuildTask
                \<lparr> params_module = m,
                  params_force = task_force t,
                  params_fromWatch = Some (task_fromWatch t),
                  params_hotReloadServiceNames = Some (task_hotReloadServiceNames t) \<rparr>) deps)"

definition emit :: "event \<Rightarrow> 'fs world \<Rightarrow> 'fs world" where
  "emit e w = w\<lparr> trace := trace w @ [e] \<rparr>"

text \<open>The error a call raised, if it raised one.\<close>

definition raised :: "garden_error + 'a \<Rightarrow> garden_error option" where
  "raised r = (case r of Inl err \<Rightarrow> Some err | Inr _ \<Rightarrow> None)"

text \<open>Calling a collaborator: the operation runs and the call is recorded with its outcome.\<close>

definition call ::
  "(garden_error + 'a \<Rightarrow> event) \<Rightarrow> ('fs, 'a) action \<Rightarrow> 'fs world
     \<Rightarrow> (garden_error + 'a) \<times> 'fs world" where
  "call ev act w =
     (case act (workspace w) of
        (r, fs') \<Rightarrow> (r, \<lparr> workspace = fs', trace = trace w @ [ev r] \<rparr>))"

text \<open>
  Lines 99 to 113 of \<^verbatim>\<open>process()\<close>: the build itself, reached when the task is
  forced or the status probe did not answer ready.
\<close>

definition process_build ::
  "('fs, 'p) garden \<Rightarrow> build_task \<Rightarrow> 'fs world \<Rightarrow> (garden_error + 'p build_result) \<times> 'fs world" where
  "process_build g t w =
     (let m = task_module t;
          w1 = emit (LogSetState (''Building version '' @ versionString (m_version m) @ ''...'')) w
      in case call (\<lambda>r. CallBuild (m_name m) (raised r)) (build g m) w1 of
           (Inl err, w2) \<Rightarrow> (Inl err, emit LogSetError w2)
         | (Inr result, w2) \<Rightarrow> (Inr result, emit LogSetSuccess w2))"

definition process ::
  "('fs, 'p) garden \<Rightarrow> build_task \<Rightarrow> 'fs world \<Rightarrow> (garden_error + 'p build_result) \<times> 'fs world" where
  "process g t w =
     (let m = task_module t;
          w1 = emit (LogInfo (getName g t) (length (files (m_version m)))) w;
          graph = getConfigGraph g
      in case call (\<lambda>r. CallSyncFromSrc (m_name m) (raised r)) (syncFromSrc g m) w1 of
           (Inl err, w2) \<Rightarrow> (Inl err, w2)
         | (Inr _, w2) \<Rightarrow>
             (case call (\<lambda>r. CallSyncDependencyProducts (m_name m) (raised r))
                     (syncDependencyProducts g m graph) w2 of
                (Inl err, w3) \<Rightarrow> (Inl err, w3)
              | (Inr _, w3) \<Rightarrow>
                  if \<not> task_force t then
                    (let w4 = emit (LogSetState (''Getting build status for '' @
                                 versionString (m_version m) @ ''...'')) w3
                     in case call (CallGetBuildStatus (m_name m)) (getBuildStatus g m) w4 of
                          (Inl err, w5) \<Rightarrow> (Inl err, w5)
                        | (Inr status, w5) \<Rightarrow>
                            if ready status
                            then (Inr \<lparr> fresh = False, payload = None \<rparr>, emit LogSetSuccess w5)
                            else process_build g t w5)
                  else process_build g t w3))"

text \<open>
  \<^verbatim>\<open>getBuildTasks\<close>: lodash's \<^verbatim>\<open>some\<close> is \<open>list_ex\<close>; the \<^verbatim>\<open>try\<close> around
  \<^verbatim>\<open>getModuleActionHandler\<close> turns any throw into "no build handler".
\<close>

definition getBuildTasks :: "('fs, 'p) garden \<Rightarrow> build_task_params \<Rightarrow> build_task list" where
  "getBuildTasks g params =
     (let m = params_module params;
          needsBuild0 = list_ex (\<lambda>d. case dep_copy d of None \<Rightarrow> False | Some cs \<Rightarrow> length cs > 0)
                          (m_build_dependencies m);
          needsBuild =
            (if \<not> needsBuild0
             then (case getModuleActionHandler g ''build'' (m_type m) of
                     Inr _ \<Rightarrow> True
                   | Inl _ \<Rightarrow> needsBuild0)
             else needsBuild0);
          buildTask = BuildTask params
      in if needsBuild then [buildTask] else getDependencies g buildTask)"

text \<open>The events a run of \<^verbatim>\<open>process()\<close> adds to the trace.\<close>

definition run_events :: "('fs, 'p) garden \<Rightarrow> build_task \<Rightarrow> 'fs world \<Rightarrow> event list" where
  "run_events g t w = drop (length (trace w)) (trace (snd (process g t w)))"

text \<open>
  The events of a run up to the end of the two workspace syncs, and up to the answer of
  the status probe, when all calls so far have completed.
\<close>

definition trace_synced :: "('fs, 'p) garden \<Rightarrow> build_task \<Rightarrow> event list" where
  "trace_synced g t =
     [LogInfo (getName g t) (length (files (m_version (task_module t)))),
      CallSyncFromSrc (m_name (task_module t)) None,
      CallSyncDependencyProducts (m_name (task_module t)) None]"

definition trace_probed :: "('fs, 'p) garden \<Rightarrow> build_task \<Rightarrow> garden_error + build_status \<Rightarrow> event list" where
  "trace_probed g t r =
     trace_synced g t @
     [LogSetState (''Getting build status for '' @ versionString (m_version (task_module t)) @ ''...''),
      CallGetBuildStatus (m_name (task_module t)) r]"

subsection \<open>The example project: module web builds on module lib\<close>

text \<open>
  Module \<open>web\<close> has a build dependency on module \<open>lib\<close> and copies \<open>lib\<close>'s
  \<^verbatim>\<open>dist\<close> into \<^verbatim>\<open>vendor/lib\<close>. The workspace is the list of paths present in the build
  directory. The backend has a build handler for the module type \<^verbatim>\<open>container\<close> only; its
  status probe answers \<open>ready\<close> exactly for the versions listed as built.
\<close>

definition lib_module :: gmodule where
  "lib_module =
     \<lparr> m_name = ''lib'', m_plugin = None, m_type = ''container'',
       m_version = \<lparr> versionString = ''v-lib'', files = [''index.ts''] \<rparr>,
       m_build_dependencies = [] \<rparr>"

definition web_module :: gmodule where
  "web_module =
     \<lparr> m_name = ''web'', m_plugin = None, m_type = ''container'',
       m_version = \<lparr> versionString = ''v-web'', files = [''app.ts'', ''page.ts''] \<rparr>,
       m_build_dependencies =
         [\<lparr> dep_name = ''lib'',
            dep_copy = Some [\<lparr> copy_source = ''dist'', copy_target = ''vendor/lib'' \<rparr>] \<rparr>] \<rparr>"

text \<open>A module of a type without build handler, depending on \<open>lib\<close> without copying.\<close>

definition docs_module :: gmodule where
  "docs_module =
     \<lparr> m_name = ''docs'', m_plugin = None, m_type = ''exec'',
       m_version = \<lparr> versionString = ''v-docs'', files = [] \<rparr>,
       m_build_dependencies = [\<lparr> dep_name = ''lib'', dep_copy = Some [] \<rparr>] \<rparr>"

definition add_paths :: "string list \<Rightarrow> string list \<Rightarrow> string list" where
  "add_paths ps fs = fold (\<lambda>p acc. if p \<in> set acc then acc else acc @ [p]) ps fs"

definition example_garden :: "string list \<Rightarrow> bool \<Rightarrow> (string list, string) garden" where
  "example_garden built build_fails =
     \<lparr> getModuleKey = (\<lambda>n p. case p of None \<Rightarrow> n | Some q \<Rightarrow> q @ ''--'' @ n),
       getConfigGraph =
         (\<lambda>nodeType n recursive.
            if nodeType = ''build'' \<and> (n = ''web'' \<or> n = ''docs'') then [lib_module] else []),
       syncFromSrc = (\<lambda>m fs. (Inr (), add_paths [m_name m @ ''/src''] fs)),
       syncDependencyProducts =
         (\<lambda>m graph fs. (Inr (), add_paths
            (concat (map (\<lambda>d. case dep_copy d of None \<Rightarrow> []
                               | Some cs \<Rightarrow> map (\<lambda>c. m_name m @ ''/'' @ copy_target c) cs)
                         (m_build_dependencies m))) fs)),
       getBuildStatus = (\<lambda>m fs. (Inr \<lparr> ready = (versionString (m_version m) \<in> set built) \<rparr>, fs)),
       build =
         (\<lambda>m fs. if build_fails
                  then (Inl (GardenError OpaqueError ''build failed''),
                        add_paths [m_name m @ ''/partial''] fs)
                  else (Inr \<lparr> fresh = True, payload = Some ''log'' \<rparr>,
                        add_paths [m_name m @ ''/dist''] fs)),
       getModuleActionHandler =
         (\<lambda>a ty. if a = ''build'' \<and> ty = ''container'' then Inr ()
                  else Inl (GardenError OpaqueError ''no handler'')) \<rparr>"

definition web_params :: "bool \<Rightarrow> build_task_params" where
  "web_params force =
     \<lparr> params_module = web_module, params_force = force,
       params_fromWatch = None, params_hotReloadServiceNames = None \<rparr>"

definition empty_world :: "string list world" where
  "empty_world = \<lparr> workspace = [], trace = [] \<rparr>"

text \<open>
  The second run of the example scenario: \<open>web\<close> is already built (\<open>v-web\<close> is ready)
  and the workspace is the one the first run left.
\<close>

definition second_run_world :: "string list world" where
  "second_run_world =
     \<lparr> workspace = [''web/src'', ''web/vendor/lib'', ''web/dist''], trace = [] \<rparr>"

section \<open>Resolving a module configuration (resolve-module.ts)\<close>

text \<open>
  An entry of \<^verbatim>\<open>build.dependencies\<close> as written in a configuration: a bare module name
  or the object form.
\<close>

datatype build_dependency_spec =
    DepName string
  | DepObject build_dependency_config

record build_config =
  build_dependencies :: "build_dependency_spec list option"

text \<open>A service, task or test configuration of a module: its name and the rest.\<close>

record 'sub named_config =
  nc_name :: string
  nc_rest :: "'sub"

text \<open>
  A module configuration; \<open>'spec\<close> is the module-type specific \<^verbatim>\<open>spec\<close> and \<open>'out\<close> the
  module outputs. An optional field is an \<open>option\<close>.
\<close>

record ('spec, 'out, 'sub) module_config =
  cfg_name :: string
  cfg_type :: string
  cfg_path :: string
  cfg_configPath :: "string option"
  cfg_plugin :: "string option"
  cfg_repositoryUrl :: "string option"
  cfg_build :: "build_config option"
  cfg_spec :: "'spec"
  cfg_outputs :: "'out"
  cfg_serviceConfigs :: "'sub named_config list"
  cfg_taskConfigs :: "'sub named_config list"
  cfg_testConfigs :: "'sub named_config list"

record 'sch module_type_definition =
  mt_name :: string
  mt_schema :: "'sch option"
  mt_moduleOutputsSchema :: "'sch option"

text \<open>The named arguments of \<^verbatim>\<open>validateWithPath\<close> besides the value and the schema.\<close>

record validate_args =
  va_configType :: "string option"
  va_name :: "string option"
  va_path :: string
  va_projectRoot :: string
  va_ErrorClass :: "error_class option"

record 'ctx module_config_resolve_opts =
  opts_configContext :: "'ctx option"

text \<open>
  The module type definitions are an ordinary JavaScript object with one property per
  registered module type (line 47 lists them with \<^verbatim>\<open>Object.keys\<close>). Reading a property
  of such an object, as line 37 does with the type name, finds the object's own property
  of that name and otherwise the member of that name that every ordinary object inherits
  from \<^verbatim>\<open>Object.prototype\<close>; only a name that is neither reads as \<^verbatim>\<open>undefined\<close>.
\<close>

definition object_prototype_members :: "string list" where
  "object_prototype_members =
     [''constructor'', ''__defineGetter__'', ''__defineSetter__'', ''hasOwnProperty'',
      ''__lookupGetter__'', ''__lookupSetter__'', ''isPrototypeOf'', ''propertyIsEnumerable'',
      ''toString'', ''valueOf'', ''__proto__'', ''toLocaleString'']"

datatype 'd property_value =
    OwnProperty 'd
  | InheritedMember string

text \<open>
  \<^verbatim>\<open>object[key]\<close> for an object given by its own properties; \<open>None\<close> is \<^verbatim>\<open>undefined\<close>.
\<close>

definition get_property :: "(string \<rightharpoonup> 'd) \<Rightarrow> string \<Rightarrow> 'd property_value option" where
  "get_property obj key =
     (case obj key of
        Some v \<Rightarrow> Some (OwnProperty v)
      | None \<Rightarrow>
          if key \<in> set object_prototype_members then Some (InheritedMember key) else None)"

text \<open>
  \<^verbatim>\<open>description.schema\<close> and \<^verbatim>\<open>description.moduleOutputsSchema\<close> of the value read at
  line 37. The members inherited from \<^verbatim>\<open>Object.prototype\<close> are functions (and, under
  \<^verbatim>\<open>__proto__\<close>, the prototype itself); they have neither property.
\<close>

definition description_schema :: "'sch module_type_definition property_value \<Rightarrow> 'sch option" where
  "description_schema description =
     (case description of
        OwnProperty d \<Rightarrow> mt_schema d
      | InheritedMember _ \<Rightarrow> None)"

definition description_moduleOutputsSchema ::
  "'sch module_type_definition property_value \<Rightarrow> 'sch option" where
  "description_moduleOutputsSchema description =
     (case description of
        OwnProperty d \<Rightarrow> mt_moduleOutputsSchema d
      | InheritedMember _ \<Rightarrow> None)"

text \<open>
  What \<^verbatim>\<open>resolveModuleConfig\<close> calls and this file does not define, as parameters:
  the \<^verbatim>\<open>Garden\<close> object's project root, module config context, module type definitions
  (the own properties of the object, by type name), external source loader and
  \<^verbatim>\<open>configureModule\<close> action; \<^verbatim>\<open>resolveTemplateStrings\<close>; \<^verbatim>\<open>validateWithPath\<close> at the
  three types it is used at, the base schema \<^verbatim>\<open>moduleConfigSchema\<close> and the schema
  operation \<^verbatim>\<open>.unknown(true)\<close>; \<^verbatim>\<open>getModuleTypeBases\<close>, which is handed the value read
  from the definitions at line 115; \<^verbatim>\<open>getModuleKey\<close>, Node's \<^verbatim>\<open>path.relative\<close>, and the
  template tag \<^verbatim>\<open>deline\<close>, a function of the strings of the template and of the
  interpolated values.
\<close>

record ('sch, 'spec, 'out, 'sub, 'ctx) resolver =
  r_projectRoot :: string
  r_getModuleConfigContext :: "'ctx"
  r_resolveTemplateStrings ::
    "('spec, 'out, 'sub) module_config \<Rightarrow> 'ctx \<Rightarrow> 'ctx module_config_resolve_opts
       \<Rightarrow> garden_error + ('spec, 'out, 'sub) module_config"
  r_getModuleTypeDefinitions :: "string \<rightharpoonup> 'sch module_type_definition"
  r_relative :: "string \<Rightarrow> string \<Rightarrow> string"
  r_deline :: "string list \<Rightarrow> string list \<Rightarrow> string"
  r_validateSpec :: "'spec \<Rightarrow> 'sch \<Rightarrow> validate_args \<Rightarrow> garden_error + 'spec"
  r_validateConfig ::
    "('spec, 'out, 'sub) module_config \<Rightarrow> 'sch \<Rightarrow> validate_args
       \<Rightarrow> garden_error + ('spec, 'out, 'sub) module_config"
  r_validateOutputs :: "'out \<Rightarrow> 'sch \<Rightarrow> validate_args \<Rightarrow> garden_error + 'out"
  r_moduleConfigSchema :: "'sch"
  r_unknown :: "'sch \<Rightarrow> 'sch"
  r_loadExtSourcePath :: "string \<Rightarrow> string \<Rightarrow> garden_error + string"
  r_configureModule ::
    "('spec, 'out, 'sub) module_config \<Rightarrow> garden_error + ('spec, 'out, 'sub) module_config"
  r_getModuleTypeBases ::
    "'sch module_type_definition property_value option
       \<Rightarrow> (string \<rightharpoonup> 'sch module_type_definition) \<Rightarrow> 'sch module_type_definition list"
  r_getModuleKey :: "string \<Rightarrow> string option \<Rightarrow> string"

text \<open>JavaScript's truthiness of an optional string: present and not empty.\<close>

definition truthy :: "string option \<Rightarrow> bool" where
  "truthy s = (case s of None \<Rightarrow> False | Some v \<Rightarrow> v \<noteq> [])"

text \<open>\<^verbatim>\<open>config.configPath || config.path\<close>\<close>

definition configPath_or_path :: "('spec, 'out, 'sub) module_config \<Rightarrow> string" where
  "configPath_or_path config =
     (case cfg_configPath config of
        None \<Rightarrow> cfg_path config
      | Some p \<Rightarrow> if p \<noteq> [] then p else cfg_path config)"

text \<open>
  The strings of the template of lines 43 to 46, between which the type and the path are
  interpolated: they hold the line feeds and the indentation of the source, and no
  escape sequence. The message of the error is what \<^verbatim>\<open>deline\<close> makes of these strings
  and the two values.
\<close>

definition unrecognized_module_type_template :: "string list" where
  "unrecognized_module_type_template =
     [[CHR 0x0A] @ ''      Unrecognized module type '' @ [CHR 0x27],
      [CHR 0x27] @ '' (defined at '',
      '').'' @ [CHR 0x0A] @ ''      Are you missing a provider configuration?'' @
        [CHR 0x0A] @ ''      '']"

definition unrecognized_module_type_message ::
  "('sch, 'spec, 'out, 'sub, 'ctx) resolver \<Rightarrow> string \<Rightarrow> string \<Rightarrow> string" where
  "unrecognized_module_type_message r type configPath =
     r_deline r unrecognized_module_type_template [type, configPath]"

text \<open>Lines 69 to 73: the shorthand of a dependency by name only becomes the object form.\<close>

definition normalize_build_dependencies ::
  "('spec, 'out, 'sub) module_config \<Rightarrow> ('spec, 'out, 'sub) module_config" where
  "normalize_build_dependencies config =
     (case cfg_build config of
        None \<Rightarrow> config
      | Some b \<Rightarrow>
          (case build_dependencies b of
             None \<Rightarrow> config
           | Some deps \<Rightarrow>
               config\<lparr> cfg_build := Some (b\<lparr> build_dependencies :=
                 Some (map (\<lambda>dep. case dep of
                              DepName n \<Rightarrow> DepObject \<lparr> dep_name = n, dep_copy = Some [] \<rparr>
                            | DepObject d \<Rightarrow> DepObject d) deps) \<rparr>) \<rparr>))"

text \<open>
  Lines 117 to 143: the loop over the bases of the module type, validating the spec and
  the outputs against each base's schemas; the first failing validation ends it.
\<close>

fun validate_bases ::
  "('sch, 'spec, 'out, 'sub, 'ctx) resolver \<Rightarrow> 'sch module_type_definition list
     \<Rightarrow> ('spec, 'out, 'sub) module_config \<Rightarrow> garden_error + ('spec, 'out, 'sub) module_config" where
  "validate_bases r [] config = Inr config"
| "validate_bases r (base # bases) config =
     (case (case mt_schema base of
              None \<Rightarrow> Inr config
            | Some sch \<Rightarrow>
                (case r_validateSpec r (cfg_spec config) (r_unknown r sch)
                        \<lparr> va_configType = Some (''configuration for module '' @ [CHR 0x27] @
                             cfg_name config @ [CHR 0x27] @ '' (base schema from '' @ [CHR 0x27] @
                             mt_name base @ [CHR 0x27] @ '' plugin)''),
                          va_name = None, va_path = r_projectRoot r,
                          va_projectRoot = r_projectRoot r,
                          va_ErrorClass = Some ConfigurationError \<rparr> of
                   Inl err \<Rightarrow> Inl err
                 | Inr spec \<Rightarrow> Inr (config\<lparr> cfg_spec := spec \<rparr>))) of
        Inl err \<Rightarrow> Inl err
      | Inr config1 \<Rightarrow>
          (case (case mt_moduleOutputsSchema base of
                   None \<Rightarrow> Inr config1
                 | Some sch \<Rightarrow>
                     (case r_validateOutputs r (cfg_outputs config1) (r_unknown r sch)
                             \<lparr> va_configType = Some (''outputs for module '' @ [CHR 0x27] @
                                  cfg_name config1 @ [CHR 0x27] @ '' (base schema from '' @
                                  [CHR 0x27] @ mt_name base @ [CHR 0x27] @ '' plugin)''),
                               va_name = None, va_path = r_projectRoot r,
                               va_projectRoot = r_projectRoot r,
                               va_ErrorClass = Some PluginError \<rparr> of
                        Inl err \<Rightarrow> Inl err
                      | Inr outputs \<Rightarrow> Inr (config1\<lparr> cfg_outputs := outputs \<rparr>))) of
             Inl err \<Rightarrow> Inl err
           | Inr config2 \<Rightarrow> validate_bases r bases config2))"

text \<open>Lines 145 to 160: the names are qualified by the plugin.\<close>

definition qualify_names ::
  "('sch, 'spec, 'out, 'sub, 'ctx) resolver \<Rightarrow> ('spec, 'out, 'sub) module_config
     \<Rightarrow> ('spec, 'out, 'sub) module_config" where
  "qualify_names r config =
     (let config1 = config\<lparr> cfg_name := r_getModuleKey r (cfg_name config) (cfg_plugin config) \<rparr>;
          qualify = map (\<lambda>c. c\<lparr> nc_name := r_getModuleKey r (nc_name c) (cfg_plugin config1) \<rparr>)
      in if truthy (cfg_plugin config1)
         then config1\<lparr> cfg_serviceConfigs := qualify (cfg_serviceConfigs config1),
                       cfg_taskConfigs := qualify (cfg_taskConfigs config1),
                       cfg_testConfigs := qualify (cfg_testConfigs config1) \<rparr>
         else config1)"

text \<open>
  Lines 85 to 160, for a configuration that passed the base schema: external source,
  the \<^verbatim>\<open>configureModule\<close> handler, the outputs schema, the bases, the names.
\<close>

definition configure_and_validate ::
  "('sch, 'spec, 'out, 'sub, 'ctx) resolver \<Rightarrow> 'sch module_type_definition property_value
     \<Rightarrow> ('spec, 'out, 'sub) module_config \<Rightarrow> garden_error + ('spec, 'out, 'sub) module_config" where
  "configure_and_validate r description config =
     (case (case cfg_repositoryUrl config of
              None \<Rightarrow> Inr config
            | Some url \<Rightarrow>
                if url \<noteq> []
                then (case r_loadExtSourcePath r (cfg_name config) url of
                        Inl err \<Rightarrow> Inl err
                      | Inr p \<Rightarrow> Inr (config\<lparr> cfg_path := p \<rparr>))
                else Inr config) of
        Inl err \<Rightarrow> Inl err
      | Inr config1 \<Rightarrow>
          (case r_configureModule r config1 of
             Inl err \<Rightarrow> Inl err
           | Inr config2 \<Rightarrow>
               (case (case description_moduleOutputsSchema description of
                        None \<Rightarrow> Inr config2
                      | Some sch \<Rightarrow>
                          (case r_validateOutputs r (cfg_outputs config2) sch
                                  \<lparr> va_configType = Some ''outputs for module'',
                                    va_name = Some (cfg_name config2), va_path = cfg_path config2,
                                    va_projectRoot = r_projectRoot r,
                                    va_ErrorClass = Some PluginError \<rparr> of
                             Inl err \<Rightarrow> Inl err
                           | Inr outputs \<Rightarrow> Inr (config2\<lparr> cfg_outputs := outputs \<rparr>))) of
                  Inl err \<Rightarrow> Inl err
                | Inr config3 \<Rightarrow>
                    (let bases = r_getModuleTypeBases r
                           (get_property (r_getModuleTypeDefinitions r) (cfg_type config3))
                           (r_getModuleTypeDefinitions r)
                     in case validate_bases r bases config3 of
                          Inl err \<Rightarrow> Inl err
                        | Inr config4 \<Rightarrow> Inr (qualify_names r config4)))))"

definition resolveModuleConfig ::
  "('sch, 'spec, 'out, 'sub, 'ctx) resolver \<Rightarrow> ('spec, 'out, 'sub) module_config
     \<Rightarrow> 'ctx module_config_resolve_opts \<Rightarrow> garden_error + ('spec, 'out, 'sub) module_config" where
  "resolveModuleConfig r config opts =
     (let ctx = (case opts_configContext opts of
                   None \<Rightarrow> r_getModuleConfigContext r
                 | Some c \<Rightarrow> c);
          opts1 = opts\<lparr> opts_configContext := Some ctx \<rparr>
      in case r_resolveTemplateStrings r config ctx opts1 of
           Inl err \<Rightarrow> Inl err
         | Inr config1 \<Rightarrow>
             (case get_property (r_getModuleTypeDefinitions r) (cfg_type config1) of
                None \<Rightarrow>
                  Inl (GardenError ConfigurationError
                         (unrecognized_module_type_message r (cfg_type config1)
                            (r_relative r (r_projectRoot r) (configPath_or_path config1))))
              | Some description \<Rightarrow>
                  (case (case description_schema description of
                           None \<Rightarrow> Inr config1
                         | Some sch \<Rightarrow>
                             (case r_validateSpec r (cfg_spec config1) sch
                                     \<lparr> va_configType = None, va_name = Some (cfg_name config1),
                                       va_path = cfg_path config1,
                                       va_projectRoot = r_projectRoot r,
                                       va_ErrorClass = None \<rparr> of
                                Inl err \<Rightarrow> Inl err
                              | Inr spec \<Rightarrow> Inr (config1\<lparr> cfg_spec := spec \<rparr>))) of
                     Inl err \<Rightarrow> Inl err
                   | Inr config2 \<Rightarrow>
                       (let config3 = normalize_build_dependencies config2
                        in case r_validateConfig r config3 (r_moduleConfigSchema r)
                                  \<lparr> va_configType = Some ''module'',
                                    va_name = Some (cfg_name config3), va_path = cfg_path config3,
                                    va_projectRoot = r_projectRoot r, va_ErrorClass = None \<rparr> of
                             Inl err \<Rightarrow> Inl err
                           | Inr config4 \<Rightarrow> configure_and_validate r description config4))))"

subsection \<open>An example resolver and configuration\<close>

text \<open>
  A tag for the example, standing in for \<^verbatim>\<open>deline\<close>: it interleaves the strings of the
  template with the values, drops the white space at both ends and puts one space for
  every other run of spaces and line feeds.
\<close>

fun interleave :: "string list \<Rightarrow> string list \<Rightarrow> string" where
  "interleave [] values = []"
| "interleave (s # strings) [] = s @ interleave strings []"
| "interleave (s # strings) (v # values) = s @ v @ interleave strings values"

fun join_words :: "bool \<Rightarrow> bool \<Rightarrow> string \<Rightarrow> string" where
  "join_words started pending [] = []"
| "join_words started pending (c # cs) =
     (if c = CHR '' '' \<or> c = CHR 0x0A then join_words started started cs
      else (if pending then '' '' else []) @ c # join_words True False cs)"

definition example_tag :: "string list \<Rightarrow> string list \<Rightarrow> string" where
  "example_tag strings values = join_words False False (interleave strings values)"

text \<open>
  A resolver whose validations and handlers accept what they are given, with a single
  module type \<^verbatim>\<open>container\<close>, and the configuration of a module \<open>web\<close> that names one
  build dependency by name only and one in object form.
\<close>

definition example_resolver :: "(nat, nat, nat, nat, nat) resolver" where
  "example_resolver =
     \<lparr> r_projectRoot = ''/project'',
       r_getModuleConfigContext = 0,
       r_resolveTemplateStrings = (\<lambda>config ctx opts. Inr config),
       r_getModuleTypeDefinitions =
         [''container'' \<mapsto> \<lparr> mt_name = ''container'', mt_schema = Some 1,
                                  mt_moduleOutputsSchema = None \<rparr>],
       r_relative = (\<lambda>from to. if take (length from + 1) to = from @ ''/''
                                then drop (length from + 1) to else to),
       r_deline = example_tag,
       r_validateSpec = (\<lambda>spec sch args. Inr spec),
       r_validateConfig = (\<lambda>config sch args. Inr config),
       r_validateOutputs = (\<lambda>outputs sch args. Inr outputs),
       r_moduleConfigSchema = 0,
       r_unknown = (\<lambda>sch. sch),
       r_loadExtSourcePath = (\<lambda>name url. Inr (''/project/.garden/sources/'' @ name)),
       r_configureModule = (\<lambda>config. Inr config),
       r_getModuleTypeBases = (\<lambda>d ds. []),
       r_getModuleKey = (\<lambda>n p. case p of None \<Rightarrow> n | Some q \<Rightarrow> q @ ''--'' @ n) \<rparr>"

definition example_config :: "string \<Rightarrow> (nat, nat, nat) module_config" where
  "example_config type =
     \<lparr> cfg_name = ''web'', cfg_type = type, cfg_path = ''/project/web'',
       cfg_configPath = Some ''/project/web/garden.yml'', cfg_plugin = None,
       cfg_repositoryUrl = None,
       cfg_build = Some \<lparr> build_dependencies = Some
         [DepName ''lib'',
          DepObject \<lparr> dep_name = ''base'',
                      dep_copy = Some [\<lparr> copy_source = ''dist'', copy_target = ''vendor'' \<rparr>] \<rparr>] \<rparr>,
       cfg_spec = 0, cfg_outputs = 0,
       cfg_serviceConfigs = [], cfg_taskConfigs = [], cfg_testConfigs = [] \<rparr>"

section \<open>KeyedSet (util/keyed-set.ts)\<close>

text \<open>
  The built-in \<^verbatim>\<open>Map\<close> a KeyedSet wraps, as the list of its entries in iteration order.
  \<^verbatim>\<open>set\<close> on a key that is present replaces the value where the key stands; on a new
  key it appends the entry. \<^verbatim>\<open>delete\<close> answers whether the key was present.
\<close>

type_synonym ('k, 'v) js_map = "('k \<times> 'v) list"

fun js_map_set :: "'k \<Rightarrow> 'v \<Rightarrow> ('k, 'v) js_map \<Rightarrow> ('k, 'v) js_map" where
  "js_map_set k v [] = [(k, v)]"
| "js_map_set k v ((k', v') # m) =
     (if k' = k then (k, v) # m else (k', v') # js_map_set k v m)"

definition js_map_has :: "'k \<Rightarrow> ('k, 'v) js_map \<Rightarrow> bool" where
  "js_map_has k m = (k \<in> set (map fst m))"

definition js_map_delete :: "'k \<Rightarrow> ('k, 'v) js_map \<Rightarrow> bool \<times> ('k, 'v) js_map" where
  "js_map_delete k m = (js_map_has k m, filter (\<lambda>e. fst e \<noteq> k) m)"

definition js_map_values :: "('k, 'v) js_map \<Rightarrow> 'v list" where
  "js_map_values m = map snd m"

definition js_map_size :: "('k, 'v) js_map \<Rightarrow> nat" where
  "js_map_size m = length m"

record 'v keyed_set =
  keyFn :: "'v \<Rightarrow> string"
  ks_map :: "(string, 'v) js_map"

definition KeyedSet :: "('v \<Rightarrow> string) \<Rightarrow> 'v keyed_set" where
  "KeyedSet f = \<lparr> keyFn = f, ks_map = [] \<rparr>"

definition add :: "'v \<Rightarrow> 'v keyed_set \<Rightarrow> 'v keyed_set" where
  "add entry s = s\<lparr> ks_map := js_map_set (keyFn s entry) entry (ks_map s) \<rparr>"

definition delete :: "'v \<Rightarrow> 'v keyed_set \<Rightarrow> bool \<times> 'v keyed_set" where
  "delete entry s =
     (case js_map_delete (keyFn s entry) (ks_map s) of
        (was_there, m) \<Rightarrow> (was_there, s\<lparr> ks_map := m \<rparr>))"

definition has :: "'v \<Rightarrow> 'v keyed_set \<Rightarrow> bool" where
  "has entry s = js_map_has (keyFn s entry) (ks_map s)"

definition hasKey :: "string \<Rightarrow> 'v keyed_set \<Rightarrow> bool" where
  "hasKey key s = js_map_has key (ks_map s)"

definition entries :: "'v keyed_set \<Rightarrow> 'v list" where
  "entries s = js_map_values (ks_map s)"

definition size_ks :: "'v keyed_set \<Rightarrow> nat" where
  "size_ks s = js_map_size (ks_map s)"

definition clear :: "'v keyed_set \<Rightarrow> 'v keyed_set" where
  "clear s = s\<lparr> ks_map := [] \<rparr>"

text \<open>
  The state a KeyedSet is in at all times: no key stands twice in the map, and every
  value is filed under its own key.
\<close>

definition keyed_inv :: "'v keyed_set \<Rightarrow> bool" where
  "keyed_inv s =
     (distinct (map fst (ks_map s)) \<and> list_all (\<lambda>e. fst e = keyFn s (snd e)) (ks_map s))"

text \<open>
  The calls that change a set, and the set a new \<^verbatim>\<open>KeyedSet\<close> has become after a
  sequence of them.
\<close>

datatype 'v keyed_set_call = Add 'v | Delete 'v | Clear

fun do_call :: "'v keyed_set_call \<Rightarrow> 'v keyed_set \<Rightarrow> 'v keyed_set" where
  "do_call (Add v) s = add v s"
| "do_call (Delete v) s = snd (delete v s)"
| "do_call Clear s = clear s"

definition after_calls :: "('v \<Rightarrow> string) \<Rightarrow> 'v keyed_set_call list \<Rightarrow> 'v keyed_set" where
  "after_calls f calls = fold do_call calls (KeyedSet f)"

text \<open>The keys of a list in the order of their first occurrence.\<close>

fun first_occurrences :: "'a list \<Rightarrow> 'a list" where
  "first_occurrences [] = []"
| "first_occurrences (x # xs) = x # filter (\<lambda>y. y \<noteq> x) (first_occurrences xs)"

section \<open>The runtime context and its serialized dependency list\<close>

subsection \<open>JavaScript values and JSON\<close>

text \<open>
  The values \<^verbatim>\<open>JSON.stringify\<close> and \<^verbatim>\<open>JSON.parse\<close> of the language work on. A number is
  an integer here (the numbers JavaScript prints in plain decimal); the list of an object
  is its properties in the object's own order. Strings are byte strings: a character
  beyond ASCII is the bytes of its UTF-8 encoding.
\<close>

datatype js_value =
    JNull
  | JBool bool
  | JNumber int
  | JString string
  | JArray "js_value list"
  | JObject "(string \<times> js_value) list"

text \<open>
  \<^verbatim>\<open>JSON.stringify(value)\<close> without indentation. In a string the quote, the backslash
  and the control characters are escaped; everything else stands for itself.
\<close>

definition hex_digit :: "nat \<Rightarrow> char" where
  "hex_digit n = (if n < 10 then char_of (48 + n) else char_of (87 + n))"

definition quote_char :: "char \<Rightarrow> string" where
  "quote_char c =
     (if c = CHR 0x22 then [CHR 0x5C, CHR 0x22]
      else if c = CHR 0x5C then [CHR 0x5C, CHR 0x5C]
      else if c = CHR 0x08 then [CHR 0x5C, CHR ''b'']
      else if c = CHR 0x0C then [CHR 0x5C, CHR ''f'']
      else if c = CHR 0x0A then [CHR 0x5C, CHR ''n'']
      else if c = CHR 0x0D then [CHR 0x5C, CHR ''r'']
      else if c = CHR 0x09 then [CHR 0x5C, CHR ''t'']
      else if of_char c < (0x20 :: nat)
        then [CHR 0x5C, CHR ''u'', CHR ''0'', CHR ''0'',
              hex_digit (of_char c div 16), hex_digit (of_char c mod 16)]
      else [c])"

definition quote_json_string :: "string \<Rightarrow> string" where
  "quote_json_string s = [CHR 0x22] @ concat (map quote_char s) @ [CHR 0x22]"

fun digits :: "nat \<Rightarrow> string" where
  "digits n = (if n < 10 then [char_of (48 + n)] else digits (n div 10) @ [char_of (48 + n mod 10)])"

declare digits.simps [simp del]

definition number_to_string :: "int \<Rightarrow> string" where
  "number_to_string i = (if i < 0 then CHR ''-'' # digits (nat (- i)) else digits (nat i))"

fun join :: "string \<Rightarrow> string list \<Rightarrow> string" where
  "join sep [] = []"
| "join sep [x] = x"
| "join sep (x # y # ys) = x @ sep @ join sep (y # ys)"

fun JSON_stringify :: "js_value \<Rightarrow> string" where
  "JSON_stringify JNull = ''null''"
| "JSON_stringify (JBool b) = (if b then ''true'' else ''false'')"
| "JSON_stringify (JNumber i) = number_to_string i"
| "JSON_stringify (JString s) = quote_json_string s"
| "JSON_stringify (JArray xs) = ''['' @ join '','' (map JSON_stringify xs) @ '']''"
| "JSON_stringify (JObject ms) =
     ''{'' @ join '','' (map (\<lambda>(k, v). quote_json_string k @ '':'' @ JSON_stringify v) ms) @ ''}''"

text \<open>
  \<^verbatim>\<open>JSON.parse(text)\<close>; \<open>None\<close> is its SyntaxError. The parser takes a bound on the
  number of nested calls, which \<open>JSON_parse\<close> sets from the length of the text. A
  \<^verbatim>\<open>\\u\<close> escape of a surrogate, a fraction, an exponent and a negative zero are
  outside the values modelled and are refused.
\<close>

definition is_ws :: "char \<Rightarrow> bool" where
  "is_ws c = (c = CHR 0x20 \<or> c = CHR 0x09 \<or> c = CHR 0x0A \<or> c = CHR 0x0D)"

definition skip_ws :: "string \<Rightarrow> string" where
  "skip_ws s = dropWhile is_ws s"

definition is_digit :: "char \<Rightarrow> bool" where
  "is_digit c = (48 \<le> (of_char c :: nat) \<and> (of_char c :: nat) \<le> 57)"

definition hex_value :: "char \<Rightarrow> nat option" where
  "hex_value c =
     (let k = of_char c :: nat
      in if 48 \<le> k \<and> k \<le> 57 then Some (k - 48)
         else if 97 \<le> k \<and> k \<le> 102 then Some (k - 87)
         else if 65 \<le> k \<and> k \<le> 70 then Some (k - 55)
         else None)"

definition utf8_encode :: "nat \<Rightarrow> string option" where
  "utf8_encode n =
     (if n < 0x80 then Some [char_of n]
      else if n < 0x800 then Some [char_of (0xC0 + n div 64), char_of (0x80 + n mod 64)]
      else if 0xD800 \<le> n \<and> n < 0xE000 then None
      else Some [char_of (0xE0 + n div 4096), char_of (0x80 + (n div 64) mod 64),
                 char_of (0x80 + n mod 64)])"

definition unicode_escape :: "char \<Rightarrow> char \<Rightarrow> char \<Rightarrow> char \<Rightarrow> string option" where
  "unicode_escape h1 h2 h3 h4 =
     (case (hex_value h1, hex_value h2, hex_value h3, hex_value h4) of
        (Some a, Some b, Some c, Some d) \<Rightarrow> utf8_encode (4096 * a + 256 * b + 16 * c + d)
      | _ \<Rightarrow> None)"

definition unescape :: "char \<Rightarrow> char option" where
  "unescape e =
     (if e = CHR 0x22 then Some (CHR 0x22)
      else if e = CHR 0x5C then Some (CHR 0x5C)
      else if e = CHR ''/'' then Some (CHR ''/'')
      else if e = CHR ''b'' then Some (CHR 0x08)
      else if e = CHR ''f'' then Some (CHR 0x0C)
      else if e = CHR ''n'' then Some (CHR 0x0A)
      else if e = CHR ''r'' then Some (CHR 0x0D)
      else if e = CHR ''t'' then Some (CHR 0x09)
      else None)"

fun parse_chars :: "string \<Rightarrow> (string \<times> string) option" where
  "parse_chars [] = None"
| "parse_chars (c # cs) =
     (if c = CHR 0x22 then Some ([], cs)
      else if c = CHR 0x5C then
        (case cs of
           [] \<Rightarrow> None
         | e # cs1 \<Rightarrow>
             if e = CHR ''u'' then
               (case cs1 of
                  h1 # h2 # h3 # h4 # cs2 \<Rightarrow>
                    (case unicode_escape h1 h2 h3 h4 of
                       None \<Rightarrow> None
                     | Some bytes \<Rightarrow>
                         (case parse_chars cs2 of
                            None \<Rightarrow> None
                          | Some (str, rest) \<Rightarrow> Some (bytes @ str, rest)))
                | _ \<Rightarrow> None)
             else
               (case unescape e of
                  None \<Rightarrow> None
                | Some ch \<Rightarrow>
                    (case parse_chars cs1 of
                       None \<Rightarrow> None
                     | Some (str, rest) \<Rightarrow> Some (ch # str, rest))))
      else if of_char c < (0x20 :: nat) then None
      else (case parse_chars cs of
              None \<Rightarrow> None
            | Some (str, rest) \<Rightarrow> Some (c # str, rest)))"

definition digits_value :: "string \<Rightarrow> nat" where
  "digits_value ds = foldl (\<lambda>acc c. 10 * acc + (of_char c - 48)) 0 ds"

definition parse_number :: "string \<Rightarrow> (js_value \<times> string) option" where
  "parse_number s =
     (let negative = (case s of [] \<Rightarrow> False | c # _ \<Rightarrow> c = CHR ''-'');
          s1 = (if negative then tl s else s);
          ds = takeWhile is_digit s1;
          rest = dropWhile is_digit s1
      in if ds = [] then None
         else if length ds > 1 \<and> hd ds = CHR ''0'' then None
         else if (case rest of [] \<Rightarrow> False
                  | c # _ \<Rightarrow> c = CHR ''.'' \<or> c = CHR ''e'' \<or> c = CHR ''E'') then None
         else if negative \<and> digits_value ds = 0 then None
         else Some (JNumber (if negative then - int (digits_value ds) else int (digits_value ds)),
                    rest))"

text \<open>A property that occurs twice in an object text keeps its place and takes the later value.\<close>

definition make_object :: "(string \<times> js_value) list \<Rightarrow> (string \<times> js_value) list" where
  "make_object ms = fold (\<lambda>(k, v) m. js_map_set k v m) ms []"

fun parse_value :: "nat \<Rightarrow> string \<Rightarrow> (js_value \<times> string) option"
  and parse_elements :: "nat \<Rightarrow> string \<Rightarrow> (js_value list \<times> string) option"
  and parse_members :: "nat \<Rightarrow> string \<Rightarrow> ((string \<times> js_value) list \<times> string) option"
where
  "parse_value 0 s = None"
| "parse_value (Suc n) s =
     (case skip_ws s of
        [] \<Rightarrow> None
      | c # cs \<Rightarrow>
          if c = CHR ''n'' then (if take 3 cs = ''ull'' then Some (JNull, drop 3 cs) else None)
          else if c = CHR ''t'' then (if take 3 cs = ''rue'' then Some (JBool True, drop 3 cs) else None)
          else if c = CHR ''f'' then (if take 4 cs = ''alse'' then Some (JBool False, drop 4 cs) else None)
          else if c = CHR 0x22 then
            (case parse_chars cs of
               None \<Rightarrow> None
             | Some (str, rest) \<Rightarrow> Some (JString str, rest))
          else if c = CHR ''['' then
            (case skip_ws cs of
               [] \<Rightarrow> None
             | d # ds \<Rightarrow>
                 if d = CHR '']'' then Some (JArray [], ds)
                 else (case parse_elements n cs of
                         None \<Rightarrow> None
                       | Some (vs, rest) \<Rightarrow> Some (JArray vs, rest)))
          else if c = CHR ''{'' then
            (case skip_ws cs of
               [] \<Rightarrow> None
             | d # ds \<Rightarrow>
                 if d = CHR ''}'' then Some (JObject [], ds)
                 else (case parse_members n cs of
                         None \<Rightarrow> None
                       | Some (ms, rest) \<Rightarrow> Some (JObject (make_object ms), rest)))
          else parse_number (c # cs))"
| "parse_elements 0 s = None"
| "parse_elements (Suc n) s =
     (case parse_value n s of
        None \<Rightarrow> None
      | Some (v, rest) \<Rightarrow>
          (case skip_ws rest of
             [] \<Rightarrow> None
           | c # cs \<Rightarrow>
               if c = CHR '','' then
                 (case parse_elements n cs of
                    None \<Rightarrow> None
                  | Some (vs, rest') \<Rightarrow> Some (v # vs, rest'))
               else if c = CHR '']'' then Some ([v], cs)
               else None))"
| "parse_members 0 s = None"
| "parse_members (Suc n) s =
     (case skip_ws s of
        [] \<Rightarrow> None
      | q # cs \<Rightarrow>
          if q \<noteq> CHR 0x22 then None
          else
            (case parse_chars cs of
               None \<Rightarrow> None
             | Some (k, rest) \<Rightarrow>
                 (case skip_ws rest of
                    [] \<Rightarrow> None
                  | c # cs1 \<Rightarrow>
                      if c \<noteq> CHR '':'' then None
                      else
                        (case parse_value n cs1 of
                           None \<Rightarrow> None
                         | Some (v, rest1) \<Rightarrow>
                             (case skip_ws rest1 of
                                [] \<Rightarrow> None
                              | d # cs2 \<Rightarrow>
                                  if d = CHR '','' then
                                    (case parse_members n cs2 of
                                       None \<Rightarrow> None
                                     | Some (ms, rest2) \<Rightarrow> Some ((k, v) # ms, rest2))
                                  else if d = CHR ''}'' then Some ([(k, v)], cs2)
                                  else None)))))"

definition JSON_parse :: "string \<Rightarrow> js_value option" where
  "JSON_parse s =
     (case parse_value (Suc (length s)) s of
        None \<Rightarrow> None
      | Some (v, rest) \<Rightarrow> if skip_ws rest = [] then Some v else None)"

text \<open>A value is well formed: numbers are safe integers and no object has a key twice.\<close>

fun wf_js :: "js_value \<Rightarrow> bool" where
  "wf_js (JNumber i) = (\<bar>i\<bar> < 2 ^ 53)"
| "wf_js (JArray xs) = list_all wf_js xs"
| "wf_js (JObject ms) = (distinct (map fst ms) \<and> list_all (\<lambda>m. wf_js (snd m)) ms)"
| "wf_js _ = True"

text \<open>What may follow a value in a text: nothing, or a comma or a closing bracket.\<close>

definition delimited :: "string \<Rightarrow> bool" where
  "delimited rest =
     (case rest of [] \<Rightarrow> True | c # _ \<Rightarrow> c = CHR '','' \<or> c = CHR '']'' \<or> c = CHR ''}'')"

text \<open>The calls the parser nests on the text of a value.\<close>

fun parse_depth :: "js_value \<Rightarrow> nat" where
  "parse_depth (JArray xs) = Suc (sum_list (map (\<lambda>x. Suc (parse_depth x)) xs))"
| "parse_depth (JObject ms) = Suc (sum_list (map (\<lambda>m. Suc (parse_depth (snd m))) ms))"
| "parse_depth _ = 1"

text \<open>A member of an object text: the quoted key, a colon, the value.\<close>

definition member_text :: "string \<times> js_value \<Rightarrow> string" where
  "member_text m = quote_json_string (fst m) @ '':'' @ JSON_stringify (snd m)"

subsection \<open>prepareRuntimeContext\<close>

datatype primitive = PString string | PNumber int | PBool bool | PNull

type_synonym primitive_map = "(string \<times> primitive) list"

datatype dependency_type = BuildDependency | ServiceDependency | TaskDependency | TestDependency

record runtime_dependency =
  rd_moduleName :: string
  rd_name :: string
  rd_outputs :: primitive_map
  rd_type :: dependency_type
  rd_version :: string

record runtime_context =
  envVars :: "string \<rightharpoonup> primitive"
  dependencies :: "runtime_dependency list"

text \<open>A module as a dependency: its name, version string and outputs.\<close>

record dependency_module =
  dm_name :: string
  dm_versionString :: string
  dm_outputs :: primitive_map

text \<open>A service or a task: its name and its module.\<close>

record dependency_entity =
  de_name :: string
  de_module :: dependency_module

record runtime_dependencies =
  deps_build :: "dependency_module list"
  deps_service :: "dependency_entity list"
  deps_task :: "dependency_entity list"
  deps_test :: "dependency_entity list"

record prepare_runtime_context_params =
  prc_variables :: primitive_map
  prc_module :: dependency_module
  prc_dependencies :: runtime_dependencies
  prc_serviceStatuses :: "string \<rightharpoonup> primitive_map"
  prc_taskResults :: "string \<rightharpoonup> primitive_map"

definition js_of_primitive :: "primitive \<Rightarrow> js_value" where
  "js_of_primitive p =
     (case p of PString s \<Rightarrow> JString s | PNumber i \<Rightarrow> JNumber i | PBool b \<Rightarrow> JBool b
      | PNull \<Rightarrow> JNull)"

definition dependency_type_name :: "dependency_type \<Rightarrow> string" where
  "dependency_type_name t =
     (case t of BuildDependency \<Rightarrow> ''build'' | ServiceDependency \<Rightarrow> ''service''
      | TaskDependency \<Rightarrow> ''task'' | TestDependency \<Rightarrow> ''test'')"

text \<open>A dependency result bundle as the JavaScript object it is.\<close>

definition js_of_dependency :: "runtime_dependency \<Rightarrow> js_value" where
  "js_of_dependency d =
     JObject [(''moduleName'', JString (rd_moduleName d)),
              (''name'', JString (rd_name d)),
              (''outputs'', JObject (map (\<lambda>(k, p). (k, js_of_primitive p)) (rd_outputs d))),
              (''type'', JString (dependency_type_name (rd_type d))),
              (''version'', JString (rd_version d))]"

definition js_of_dependencies :: "runtime_dependency list \<Rightarrow> js_value" where
  "js_of_dependencies ds = JArray (map js_of_dependency ds)"

text \<open>
  Name mangling of a key for an environment variable: letters are uppercased, digits
  kept, every other character becomes an underscore.
\<close>

definition env_char :: "char \<Rightarrow> char" where
  "env_char c =
     (let k = of_char c :: nat
      in if 97 \<le> k \<and> k \<le> 122 then char_of (k - 32)
         else if (65 \<le> k \<and> k \<le> 90) \<or> (48 \<le> k \<and> k \<le> 57) then c
         else CHR ''_'')"

definition env_name :: "string \<Rightarrow> string" where
  "env_name key = map env_char key"

text \<open>The entities of a list with a name not seen before, in their order.\<close>

fun uniq_by_name :: "('a \<Rightarrow> string) \<Rightarrow> 'a list \<Rightarrow> 'a list" where
  "uniq_by_name name [] = []"
| "uniq_by_name name (x # xs) = x # uniq_by_name name (filter (\<lambda>y. name y \<noteq> name x) xs)"

definition output_env_vars :: "string \<Rightarrow> string \<Rightarrow> primitive_map \<Rightarrow> (string \<times> primitive) list" where
  "output_env_vars kind name outputs =
     map (\<lambda>(k, v). (''GARDEN_'' @ kind @ ''_'' @ env_name name @ ''__OUTPUT_'' @ env_name k, v))
       outputs"

definition outputs_of :: "(string \<rightharpoonup> primitive_map) \<Rightarrow> string \<Rightarrow> primitive_map" where
  "outputs_of results name = (case results name of None \<Rightarrow> [] | Some outputs \<Rightarrow> outputs)"

text \<open>
  Modelled from the spec: \<^verbatim>\<open>prepareRuntimeContext\<close> of \<^verbatim>\<open>src/runtime-context.ts\<close>, which
  is not among the sources (only its unit test is). The construction rules are those of
  the specification's section on the runtime context assembler, in its order: the
  module's version string; one variable per project variable; one per output of every
  build dependency module (and, as the unit test expects, of the modules of the service
  and task dependencies); one per runtime output of every service dependency, taken from
  the service statuses; one per output of every task dependency, taken from the task
  results; and one holding the serialized dependency list. The dependency list has one
  entry per dependency entity passed in. The names of the variables are the ones the unit
  test reads.
\<close>

definition prepareRuntimeContext :: "prepare_runtime_context_params \<Rightarrow> runtime_context" where
  "prepareRuntimeContext params =
     (let deps = prc_dependencies params;
          builds = uniq_by_name dm_name (deps_build deps);
          services = uniq_by_name de_name (deps_service deps);
          tasks = uniq_by_name de_name (deps_task deps);
          depModules = uniq_by_name dm_name
            (deps_build deps @ map de_module (deps_service deps) @ map de_module (deps_task deps));
          dependencies =
            map (\<lambda>m. \<lparr> rd_moduleName = dm_name m, rd_name = dm_name m,
                        rd_outputs = dm_outputs m, rd_type = BuildDependency,
                        rd_version = dm_versionString m \<rparr>) builds
            @ map (\<lambda>s. \<lparr> rd_moduleName = dm_name (de_module s), rd_name = de_name s,
                          rd_outputs = outputs_of (prc_serviceStatuses params) (de_name s),
                          rd_type = ServiceDependency,
                          rd_version = dm_versionString (de_module s) \<rparr>) services
            @ map (\<lambda>t. \<lparr> rd_moduleName = dm_name (de_module t), rd_name = de_name t,
                          rd_outputs = outputs_of (prc_taskResults params) (de_name t),
                          rd_type = TaskDependency,
                          rd_version = dm_versionString (de_module t) \<rparr>) tasks;
          vars =
            [(''GARDEN_VERSION'', PString (dm_versionString (prc_module params)))]
            @ map (\<lambda>(k, v). (''GARDEN_VARIABLES_'' @ env_name k, v)) (prc_variables params)
            @ concat (map (\<lambda>m. output_env_vars ''MODULE'' (dm_name m) (dm_outputs m)) depModules)
            @ concat (map (\<lambda>s. output_env_vars ''SERVICE'' (de_name s)
                                  (outputs_of (prc_serviceStatuses params) (de_name s))) services)
            @ concat (map (\<lambda>t. output_env_vars ''TASK'' (de_name t)
                                  (outputs_of (prc_taskResults params) (de_name t))) tasks)
            @ [(''GARDEN_DEPENDENCIES'',
                PString (JSON_stringify (js_of_dependencies dependencies)))]
      in \<lparr> envVars = fold (\<lambda>(k, v) env. env(k \<mapsto> v)) vars Map.empty,
           dependencies = dependencies \<rparr>)"

text \<open>
  An outputs mapping is a JavaScript object with primitive values: no key stands twice,
  and its numbers are safe integers.
\<close>

definition wf_outputs :: "primitive_map \<Rightarrow> bool" where
  "wf_outputs outputs =
     (distinct (map fst outputs)
      \<and> list_all (\<lambda>e. case snd e of PNumber i \<Rightarrow> \<bar>i\<bar> < 2 ^ 53 | _ \<Rightarrow> True) outputs)"

subsection \<open>An example runtime context\<close>

definition example_runtime_params :: prepare_runtime_context_params where
  "example_runtime_params =
     \<lparr> prc_variables = [(''my-var'', PString ''foo'')],
       prc_module = \<lparr> dm_name = ''module-a'', dm_versionString = ''v-a'', dm_outputs = [] \<rparr>,
       prc_dependencies =
         \<lparr> deps_build = [\<lparr> dm_name = ''module-b'', dm_versionString = ''v-b'',
                            dm_outputs = [(''my-output'', PString ''meep'')] \<rparr>],
           deps_service = [\<lparr> de_name = ''service-b'',
                              de_module = \<lparr> dm_name = ''module-b'', dm_versionString = ''v-b'',
                                            dm_outputs = [(''my-output'', PString ''meep'')] \<rparr> \<rparr>],
           deps_task = [], deps_test = [] \<rparr>,
       prc_serviceStatuses = [''service-b'' \<mapsto> [(''port'', PNumber 8080), (''ok'', PBool True)]],
       prc_taskResults = Map.empty \<rparr>"

section \<open>The build task: what a run does\<close>

lemma process_syncFromSrc_raises:
  assumes "syncFromSrc g (task_module t) (workspace w) = (Inl err, fs1)"
  shows "process g t w =
           (Inl err,
            \<lparr> workspace = fs1,
              trace = trace w @
                [LogInfo (getName g t) (length (files (m_version (task_module t)))),
                 CallSyncFromSrc (m_name (task_module t)) (Some err)] \<rparr>)"
  using assms by (simp add: process_def call_def emit_def raised_def Let_def)

lemma process_syncDependencyProducts_raises:
  assumes "syncFromSrc g (task_module t) (workspace w) = (Inr u1, fs1)"
    and "syncDependencyProducts g (task_module t) (getConfigGraph g) fs1 = (Inl err, fs2)"
  shows "process g t w =
           (Inl err,
            \<lparr> workspace = fs2,
              trace = trace w @
                [LogInfo (getName g t) (length (files (m_version (task_module t)))),
                 CallSyncFromSrc (m_name (task_module t)) None,
                 CallSyncDependencyProducts (m_name (task_module t)) (Some err)] \<rparr>)"
  using assms by (simp add: process_def call_def emit_def raised_def Let_def)

lemma process_probe_raises:
  assumes "\<not> task_force t"
    and "syncFromSrc g (task_module t) (workspace w) = (Inr u1, fs1)"
    and "syncDependencyProducts g (task_module t) (getConfigGraph g) fs1 = (Inr u2, fs2)"
    and "getBuildStatus g (task_module t) fs2 = (Inl err, fs3)"
  shows "process g t w =
           (Inl err, \<lparr> workspace = fs3, trace = trace w @ trace_probed g t (Inl err) \<rparr>)"
  using assms
  by (simp add: process_def call_def emit_def raised_def trace_probed_def trace_synced_def Let_def)

lemma process_ready_eq:
  assumes "\<not> task_force t"
    and "syncFromSrc g (task_module t) (workspace w) = (Inr u1, fs1)"
    and "syncDependencyProducts g (task_module t) (getConfigGraph g) fs1 = (Inr u2, fs2)"
    and "getBuildStatus g (task_module t) fs2 = (Inr st, fs3)"
    and "ready st"
  shows "process g t w =
           (Inr \<lparr> fresh = False, payload = None \<rparr>,
            \<lparr> workspace = fs3,
              trace = trace w @ trace_probed g t (Inr st) @ [LogSetSuccess] \<rparr>)"
  using assms
  by (simp add: process_def call_def emit_def raised_def trace_probed_def trace_synced_def Let_def)

lemma process_forced_eq:
  assumes "task_force t"
    and "syncFromSrc g (task_module t) (workspace w) = (Inr u1, fs1)"
    and "syncDependencyProducts g (task_module t) (getConfigGraph g) fs1 = (Inr u2, fs2)"
  shows "process g t w =
           process_build g t \<lparr> workspace = fs2, trace = trace w @ trace_synced g t \<rparr>"
  using assms
  by (simp add: process_def call_def emit_def raised_def trace_synced_def Let_def)

lemma process_not_ready_eq:
  assumes "\<not> task_force t"
    and "syncFromSrc g (task_module t) (workspace w) = (Inr u1, fs1)"
    and "syncDependencyProducts g (task_module t) (getConfigGraph g) fs1 = (Inr u2, fs2)"
    and "getBuildStatus g (task_module t) fs2 = (Inr st, fs3)"
    and "\<not> ready st"
  shows "process g t w =
           process_build g t
             \<lparr> workspace = fs3, trace = trace w @ trace_probed g t (Inr st) \<rparr>"
  using assms
  by (simp add: process_def call_def emit_def raised_def trace_probed_def trace_synced_def Let_def)

lemma process_build_eq:
  "process_build g t w =
     (case build g (task_module t) (workspace w) of
        (r, fs') \<Rightarrow>
          (r, \<lparr> workspace = fs',
                trace = trace w @
                  [LogSetState (''Building version '' @
                     versionString (m_version (task_module t)) @ ''...''),
                   CallBuild (m_name (task_module t)) (raised r),
                   (case r of Inl _ \<Rightarrow> LogSetError | Inr _ \<Rightarrow> LogSetSuccess)] \<rparr>))"
  by (simp add: process_build_def call_def emit_def raised_def Let_def
      split: prod.splits sum.splits)

text \<open>
  A recorded answer of the status probe tells how the run went up to it: the task is not
  forced, both workspace syncs completed, and the probe gave this answer on the workspace
  they left.
\<close>

lemma probe_answer_recorded:
  assumes "CallGetBuildStatus n r \<in> set (run_events g t w)"
  shows "\<not> task_force t \<and> n = m_name (task_module t)
       \<and> (\<exists>u1 fs1 u2 fs2 fs3.
             syncFromSrc g (task_module t) (workspace w) = (Inr u1, fs1)
             \<and> syncDependencyProducts g (task_module t) (getConfigGraph g) fs1 = (Inr u2, fs2)
             \<and> getBuildStatus g (task_module t) fs2 = (r, fs3))"
proof -
  obtain r1 fs1 where s1: "syncFromSrc g (task_module t) (workspace w) = (r1, fs1)"
    by (cases "syncFromSrc g (task_module t) (workspace w)")
  obtain r2 fs2 where
    s2: "syncDependencyProducts g (task_module t) (getConfigGraph g) fs1 = (r2, fs2)"
    by (cases "syncDependencyProducts g (task_module t) (getConfigGraph g) fs1")
  obtain r3 fs3 where s3: "getBuildStatus g (task_module t) fs2 = (r3, fs3)"
    by (cases "getBuildStatus g (task_module t) fs2")
  show ?thesis
  proof (cases r1)
    case (Inl err)
    with assms s1 show ?thesis
      by (simp add: run_events_def process_syncFromSrc_raises)
  next
    case u1: (Inr u1)
    show ?thesis
    proof (cases r2)
      case (Inl err)
      with assms s1 s2 u1 show ?thesis
        by (simp add: run_events_def process_syncDependencyProducts_raises)
    next
      case u2: (Inr u2)
      show ?thesis
      proof (cases "task_force t")
        case True
        with assms s1 s2 u1 u2 show ?thesis
          by (simp add: run_events_def process_forced_eq process_build_eq trace_synced_def
              split: prod.splits sum.splits)
      next
        case False
        have "n = m_name (task_module t) \<and> r = r3"
        proof (cases r3)
          case (Inl err)
          with assms s1 s2 s3 u1 u2 False show ?thesis
            by (simp add: run_events_def process_probe_raises [OF False] trace_probed_def
                trace_synced_def)
        next
          case (Inr st)
          with assms s1 s2 s3 u1 u2 False show ?thesis
            by (cases "ready st")
               (simp_all add: run_events_def process_ready_eq [OF False]
                  process_not_ready_eq [OF False] process_build_eq trace_probed_def
                  trace_synced_def split: prod.splits sum.splits)
        qed
        with s1 s2 s3 u1 u2 False show ?thesis
          by blast
      qed
    qed
  qed
qed

text \<open>
  A recorded call of the build action tells the same: the run is the build of lines 99 to
  113 on the workspace that the syncs, and the probe of a task that is not forced, left.
\<close>

lemma build_call_recorded:
  assumes "CallBuild n r \<in> set (run_events g t w)"
  shows "\<exists>w'. process g t w = process_build g t w'
             \<and> (\<forall>n' r'. CallBuild n' r' \<notin> set (drop (length (trace w)) (trace w')))
             \<and> LogSetSuccess \<notin> set (drop (length (trace w)) (trace w'))
             \<and> length (trace w) \<le> length (trace w')"
proof -
  obtain r1 fs1 where s1: "syncFromSrc g (task_module t) (workspace w) = (r1, fs1)"
    by (cases "syncFromSrc g (task_module t) (workspace w)")
  obtain r2 fs2 where
    s2: "syncDependencyProducts g (task_module t) (getConfigGraph g) fs1 = (r2, fs2)"
    by (cases "syncDependencyProducts g (task_module t) (getConfigGraph g) fs1")
  obtain r3 fs3 where s3: "getBuildStatus g (task_module t) fs2 = (r3, fs3)"
    by (cases "getBuildStatus g (task_module t) fs2")
  show ?thesis
  proof (cases r1)
    case (Inl err)
    with assms s1 show ?thesis
      by (simp add: run_events_def process_syncFromSrc_raises)
  next
    case u1: (Inr u1)
    show ?thesis
    proof (cases r2)
      case (Inl err)
      with assms s1 s2 u1 show ?thesis
        by (simp add: run_events_def process_syncDependencyProducts_raises)
    next
      case u2: (Inr u2)
      show ?thesis
      proof (cases "task_force t")
        case True
        from s1 s2 u1 u2 have
          "process g t w = process_build g t \<lparr> workspace = fs2, trace = trace w @ trace_synced g t \<rparr>"
          by (simp add: process_forced_eq [OF True])
        then show ?thesis
          by (intro exI [of _ "\<lparr> workspace = fs2, trace = trace w @ trace_synced g t \<rparr>"])
             (simp add: trace_synced_def)
      next
        case False
        show ?thesis
        proof (cases r3)
          case (Inl err)
          with assms s1 s2 s3 u1 u2 False show ?thesis
            by (simp add: run_events_def process_probe_raises [OF False] trace_probed_def
                trace_synced_def)
        next
          case (Inr st)
          show ?thesis
          proof (cases "ready st")
            case True
            with assms s1 s2 s3 u1 u2 False Inr show ?thesis
              by (simp add: run_events_def process_ready_eq [OF False] trace_probed_def
                  trace_synced_def)
          next
            case nr: False
            from s1 s2 s3 u1 u2 Inr nr have
              "process g t w = process_build g t
                 \<lparr> workspace = fs3, trace = trace w @ trace_probed g t (Inr st) \<rparr>"
              by (simp add: process_not_ready_eq [OF False])
            then show ?thesis
              by (intro exI [of _ "\<lparr> workspace = fs3,
                    trace = trace w @ trace_probed g t (Inr st) \<rparr>"])
                 (simp add: trace_probed_def trace_synced_def)
          qed
        qed
      qed
    qed
  qed
qed

text \<open>
  C1. A Build task that is not forced and whose status probe reports ready: the run
  returns \<open>fresh = False\<close>, the build action is not invoked, and the only call the run
  makes to the action router is the status probe.
\<close>

theorem cache_hit_returns_not_fresh:
  assumes "\<not> task_force t"
    and "CallGetBuildStatus n (Inr st) \<in> set (run_events g t w)"
    and "ready st"
  shows "fst (process g t w) = Inr \<lparr> fresh = False, payload = None \<rparr>
       \<and> (\<forall>n' r. CallBuild n' r \<notin> set (run_events g t w))
       \<and> filter (\<lambda>e. case e of CallGetBuildStatus _ _ \<Rightarrow> True | CallBuild _ _ \<Rightarrow> True | _ \<Rightarrow> False)
            (run_events g t w) = [CallGetBuildStatus (m_name (task_module t)) (Inr st)]"
proof -
  from probe_answer_recorded [OF assms(2)] obtain u1 fs1 u2 fs2 fs3 where
    "syncFromSrc g (task_module t) (workspace w) = (Inr u1, fs1)"
    "syncDependencyProducts g (task_module t) (getConfigGraph g) fs1 = (Inr u2, fs2)"
    "getBuildStatus g (task_module t) fs2 = (Inr st, fs3)"
    by blast
  from process_ready_eq [OF assms(1) this assms(3)] show ?thesis
    by (simp add: run_events_def trace_probed_def trace_synced_def)
qed

lemma second_run_process:
  "process (example_garden [''v-web''] False) (BuildTask (web_params False)) second_run_world
     = (Inr \<lparr> fresh = False, payload = None \<rparr>,
        \<lparr> workspace = [''web/src'', ''web/vendor/lib'', ''web/dist''],
          trace = [LogInfo ''web'' 2, CallSyncFromSrc ''web'' None,
                   CallSyncDependencyProducts ''web'' None,
                   LogSetState ''Getting build status for v-web...'',
                   CallGetBuildStatus ''web'' (Inr \<lparr> ready = True \<rparr>), LogSetSuccess] \<rparr>)"
  by (simp add: process_def call_def emit_def raised_def getName_def BuildTask_def
      web_params_def web_module_def example_garden_def second_run_world_def add_paths_def Let_def)

lemma second_run_events:
  "run_events (example_garden [''v-web''] False) (BuildTask (web_params False)) second_run_world
     = [LogInfo ''web'' 2, CallSyncFromSrc ''web'' None, CallSyncDependencyProducts ''web'' None,
        LogSetState ''Getting build status for v-web...'',
        CallGetBuildStatus ''web'' (Inr \<lparr> ready = True \<rparr>), LogSetSuccess]"
  by (simp add: run_events_def second_run_process) (simp add: second_run_world_def)

lemma example_force: "task_force (BuildTask (web_params fc)) = fc"
  by (simp add: BuildTask_def web_params_def)

theorem cache_hit_returns_not_fresh_witness:
  "\<not> task_force (BuildTask (web_params False))
   \<and> CallGetBuildStatus ''web'' (Inr \<lparr> ready = True \<rparr>)
       \<in> set (run_events (example_garden [''v-web''] False) (BuildTask (web_params False))
                second_run_world)
   \<and> fst (process (example_garden [''v-web''] False) (BuildTask (web_params False))
            second_run_world) = Inr \<lparr> fresh = False, payload = None \<rparr>"
proof -
  have f: "\<not> task_force (BuildTask (web_params False))"
    by (simp add: example_force)
  have p: "CallGetBuildStatus ''web'' (Inr \<lparr> ready = True \<rparr>)
             \<in> set (run_events (example_garden [''v-web''] False) (BuildTask (web_params False))
                      second_run_world)"
    by (simp add: second_run_events)
  have r: "ready \<lparr> ready = True \<rparr>"
    by simp
  from cache_hit_returns_not_fresh [OF f p r] f p show ?thesis
    by simp
qed




text \<open>
  C7. A run in which the build action raises: \<^verbatim>\<open>process()\<close> rejects with that very
  error, the last thing it does is mark its log entry as failed (\<^verbatim>\<open>log.setError()\<close>;
  success is never logged), and the workspace it leaves is the one the failing build
  action left: nothing is called after the build to undo it.
\<close>

theorem build_error_is_rethrown:
  assumes "CallBuild n (Some err) \<in> set (run_events g t w)"
  shows "fst (process g t w) = Inl err
       \<and> last (run_events g t w) = LogSetError
       \<and> LogSetSuccess \<notin> set (run_events g t w)
       \<and> (\<exists>evs. run_events g t w = evs @ [CallBuild (m_name (task_module t)) (Some err), LogSetError])
       \<and> (\<exists>fs. build g (task_module t) fs = (Inl err, workspace (snd (process g t w))))"
proof -
  from build_call_recorded [OF assms] obtain w' where
    p: "process g t w = process_build g t w'"
    and before: "\<forall>n' r'. CallBuild n' r' \<notin> set (drop (length (trace w)) (trace w'))"
      "LogSetSuccess \<notin> set (drop (length (trace w)) (trace w'))"
    and len: "length (trace w) \<le> length (trace w')"
    by blast
  obtain r fs' where b: "build g (task_module t) (workspace w') = (r, fs')"
    by (cases "build g (task_module t) (workspace w')")
  let ?tail = "[LogSetState (''Building version '' @
                  versionString (m_version (task_module t)) @ ''...''),
                CallBuild (m_name (task_module t)) (raised r),
                (case r of Inl _ \<Rightarrow> LogSetError | Inr _ \<Rightarrow> LogSetSuccess)]"
  have ev: "run_events g t w = drop (length (trace w)) (trace w') @ ?tail"
    using len by (simp add: run_events_def p process_build_eq b)
  with assms before have "raised r = Some err"
    by (cases r) auto
  then have r: "r = Inl err"
    by (cases r) (simp_all add: raised_def)
  from before show ?thesis
    using b by (auto simp: ev r p process_build_eq raised_def)
qed

lemma failing_run_process:
  "process (example_garden [] True) (BuildTask (web_params False)) empty_world
     = (Inl (GardenError OpaqueError ''build failed''),
        \<lparr> workspace = [''web/src'', ''web/vendor/lib'', ''web/partial''],
          trace = [LogInfo ''web'' 2, CallSyncFromSrc ''web'' None,
                   CallSyncDependencyProducts ''web'' None,
                   LogSetState ''Getting build status for v-web...'',
                   CallGetBuildStatus ''web'' (Inr \<lparr> ready = False \<rparr>),
                   LogSetState ''Building version v-web...'',
                   CallBuild ''web'' (Some (GardenError OpaqueError ''build failed'')),
                   LogSetError] \<rparr>)"
  by (simp add: process_def process_build_def call_def emit_def raised_def getName_def
      BuildTask_def web_params_def web_module_def example_garden_def empty_world_def
      add_paths_def Let_def)

theorem build_error_is_rethrown_witness:
  "CallBuild ''web'' (Some (GardenError OpaqueError ''build failed''))
     \<in> set (run_events (example_garden [] True) (BuildTask (web_params False)) empty_world)
   \<and> fst (process (example_garden [] True) (BuildTask (web_params False)) empty_world)
     = Inl (GardenError OpaqueError ''build failed'')
   \<and> workspace (snd (process (example_garden [] True) (BuildTask (web_params False)) empty_world))
     = [''web/src'', ''web/vendor/lib'', ''web/partial'']
   \<and> last (run_events (example_garden [] True) (BuildTask (web_params False)) empty_world)
     = LogSetError"
proof -
  have c: "CallBuild ''web'' (Some (GardenError OpaqueError ''build failed''))
             \<in> set (run_events (example_garden [] True) (BuildTask (web_params False)) empty_world)"
    by (simp add: run_events_def failing_run_process) (simp add: empty_world_def)
  from build_error_is_rethrown [OF c] c show ?thesis
    by (simp add: failing_run_process)
qed

text \<open>
  C5, as the code has it. A cache hit does not skip the two workspace syncs: the source
  sync and the dependency-product sync are both invoked, in this order and before the
  status probe, and both complete. After them the run only logs, asks the probe and
  returns \<open>fresh = False\<close>; the build action is not invoked, and the workspace the run
  leaves is the one the two syncs and the probe left.
\<close>

theorem cache_hit_still_syncs:
  assumes "\<not> task_force t"
    and "CallGetBuildStatus n (Inr st) \<in> set (run_events g t w)"
    and "ready st"
  shows "run_events g t w =
           [LogInfo (getName g t) (length (files (m_version (task_module t)))),
            CallSyncFromSrc (m_name (task_module t)) None,
            CallSyncDependencyProducts (m_name (task_module t)) None,
            LogSetState (''Getting build status for '' @
              versionString (m_version (task_module t)) @ ''...''),
            CallGetBuildStatus (m_name (task_module t)) (Inr st),
            LogSetSuccess]
       \<and> fresh (projr (fst (process g t w))) = False
       \<and> (\<exists>u1 fs1 u2 fs2.
             syncFromSrc g (task_module t) (workspace w) = (Inr u1, fs1)
             \<and> syncDependencyProducts g (task_module t) (getConfigGraph g) fs1 = (Inr u2, fs2)
             \<and> getBuildStatus g (task_module t) fs2 = (Inr st, workspace (snd (process g t w))))"
proof -
  from probe_answer_recorded [OF assms(2)] obtain u1 fs1 u2 fs2 fs3 where
    s: "syncFromSrc g (task_module t) (workspace w) = (Inr u1, fs1)"
    "syncDependencyProducts g (task_module t) (getConfigGraph g) fs1 = (Inr u2, fs2)"
    "getBuildStatus g (task_module t) fs2 = (Inr st, fs3)"
    by blast
  from process_ready_eq [OF assms(1) s assms(3)] s show ?thesis
    by (simp add: run_events_def trace_probed_def trace_synced_def)
qed

theorem cache_hit_still_syncs_witness:
  "run_events (example_garden [''v-web''] False) (BuildTask (web_params False)) second_run_world
     = [LogInfo ''web'' 2, CallSyncFromSrc ''web'' None, CallSyncDependencyProducts ''web'' None,
        LogSetState ''Getting build status for v-web...'',
        CallGetBuildStatus ''web'' (Inr \<lparr> ready = True \<rparr>), LogSetSuccess]"
proof -
  have f: "\<not> task_force (BuildTask (web_params False))"
    by (simp add: example_force)
  have p: "CallGetBuildStatus ''web'' (Inr \<lparr> ready = True \<rparr>)
             \<in> set (run_events (example_garden [''v-web''] False) (BuildTask (web_params False))
                      second_run_world)"
    by (simp add: second_run_events)
  have r: "ready \<lparr> ready = True \<rparr>"
    by simp
  from cache_hit_still_syncs [OF f p r] show ?thesis
    by (simp add: getName_def BuildTask_def web_params_def web_module_def example_garden_def)
qed

text \<open>
  C5 as stated fails: in the second run of the example scenario, a cache hit that
  returns \<open>fresh = False\<close>, the source sync and the dependency-product sync into the
  build workspace are both performed.
\<close>

theorem cache_hit_skips_syncs_counterexample:
  "\<not> task_force (BuildTask (web_params False))
   \<and> fst (process (example_garden [''v-web''] False) (BuildTask (web_params False))
            second_run_world) = Inr \<lparr> fresh = False, payload = None \<rparr>
   \<and> CallSyncFromSrc ''web'' None \<in> set (run_events (example_garden [''v-web''] False)
        (BuildTask (web_params False)) second_run_world)
   \<and> CallSyncDependencyProducts ''web'' None \<in> set (run_events (example_garden [''v-web''] False)
        (BuildTask (web_params False)) second_run_world)"
  by (simp add: second_run_events second_run_process example_force)

section \<open>The build task: which tasks a module gets\<close>

lemma getDependencies_eq:
  "getDependencies g t =
     map (\<lambda>m. \<lparr> task_module = m, task_force = task_force t, task_version = m_version m,
                 task_fromWatch = task_fromWatch t,
                 task_hotReloadServiceNames = task_hotReloadServiceNames t \<rparr>)
       (getConfigGraph g ''build'' (getName g t) False)"
  by (simp add: getDependencies_def BuildTask_def Let_def)

lemma getBuildTasks_eq:
  "getBuildTasks g params =
     (if (\<exists>d \<in> set (m_build_dependencies (params_module params)).
            \<exists>cs. dep_copy d = Some cs \<and> cs \<noteq> [])
         \<or> (\<exists>h. getModuleActionHandler g ''build'' (m_type (params_module params)) = Inr h)
      then [BuildTask params]
      else getDependencies g (BuildTask params))"
proof -
  have ex: "list_ex (\<lambda>d. case dep_copy d of None \<Rightarrow> False | Some cs \<Rightarrow> length cs > 0) ds
          \<longleftrightarrow> (\<exists>d \<in> set ds. \<exists>cs. dep_copy d = Some cs \<and> cs \<noteq> [])" for ds
    by (auto simp: list_ex_iff split: option.splits)
  show ?thesis
    unfolding getBuildTasks_def Let_def ex
    by (cases "getModuleActionHandler g ''build'' (m_type (params_module params))") auto
qed

text \<open>
  C3. \<^verbatim>\<open>getBuildTasks\<close> returns the single Build task of the module itself when (a)
  some build dependency of the module declares a non-empty copy list or (b) the action
  router has a build handler for the module's type; otherwise it returns the Build tasks
  of the module's build dependencies, as \<^verbatim>\<open>getDependencies\<close> of the module's task gives
  them. The module's own task is then not among them, and the answer is the single own
  task only if (a) or (b), for every module that is not its own build dependency.
\<close>

theorem getBuildTasks_needs_build:
  fixes g :: "('fs, 'p) garden" and params :: build_task_params
  defines "m \<equiv> params_module params"
  defines "needs \<equiv>
     (\<exists>d \<in> set (m_build_dependencies m). \<exists>cs. dep_copy d = Some cs \<and> cs \<noteq> [])
     \<or> (\<exists>h. getModuleActionHandler g ''build'' (m_type m) = Inr h)"
  shows "(needs \<longrightarrow> getBuildTasks g params = [BuildTask params])
       \<and> (\<not> needs \<longrightarrow> getBuildTasks g params = getDependencies g (BuildTask params))
       \<and> (\<not> needs \<longrightarrow> map task_module (getBuildTasks g params)
                          = getConfigGraph g ''build'' (getName g (BuildTask params)) False)
       \<and> (m \<notin> set (getConfigGraph g ''build'' (getName g (BuildTask params)) False) \<longrightarrow>
            (getBuildTasks g params = [BuildTask params] \<longleftrightarrow> needs)
            \<and> (\<not> needs \<longrightarrow> BuildTask params \<notin> set (getBuildTasks g params)))"
proof -
  have eq: "getBuildTasks g params =
              (if needs then [BuildTask params] else getDependencies g (BuildTask params))"
    unfolding needs_def m_def by (rule getBuildTasks_eq)
  have mods: "map task_module (getDependencies g (BuildTask params))
                = getConfigGraph g ''build'' (getName g (BuildTask params)) False"
    by (simp add: getDependencies_eq comp_def)
  have own: "task_module (BuildTask params) = m"
    by (simp add: BuildTask_def m_def)
  have notin: "BuildTask params \<notin> set (getDependencies g (BuildTask params))"
    if "m \<notin> set (getConfigGraph g ''build'' (getName g (BuildTask params)) False)"
  proof
    assume "BuildTask params \<in> set (getDependencies g (BuildTask params))"
    then have "task_module (BuildTask params)
                 \<in> set (map task_module (getDependencies g (BuildTask params)))"
      by (simp only: set_map) (rule imageI)
    with mods own that show False by simp
  qed
  show ?thesis
    using mods notin by (auto simp: eq)
qed

theorem getBuildTasks_needs_build_witness:
  "getBuildTasks (example_garden [] False) (web_params False) = [BuildTask (web_params False)]
   \<and> getBuildTasks (example_garden [] False)
        \<lparr> params_module = docs_module, params_force = False,
          params_fromWatch = None, params_hotReloadServiceNames = None \<rparr>
       = [BuildTask \<lparr> params_module = lib_module, params_force = False,
                      params_fromWatch = Some False, params_hotReloadServiceNames = Some [] \<rparr>]"
proof -
  let ?g = "example_garden [] False"
  let ?docs = "\<lparr> params_module = docs_module, params_force = False,
                  params_fromWatch = None, params_hotReloadServiceNames = None \<rparr>"
  have a: "\<exists>d \<in> set (m_build_dependencies (params_module (web_params False))).
             \<exists>cs. dep_copy d = Some cs \<and> cs \<noteq> []"
    by (simp add: web_params_def web_module_def)
  have b: "\<not> ((\<exists>d \<in> set (m_build_dependencies (params_module ?docs)).
                 \<exists>cs. dep_copy d = Some cs \<and> cs \<noteq> [])
              \<or> (\<exists>h. getModuleActionHandler ?g ''build'' (m_type (params_module ?docs)) = Inr h))"
    by (simp add: docs_module_def example_garden_def)
  have d: "getDependencies ?g (BuildTask ?docs)
             = [BuildTask \<lparr> params_module = lib_module, params_force = False,
                  params_fromWatch = Some False, params_hotReloadServiceNames = Some [] \<rparr>]"
    by (simp add: getDependencies_def getName_def BuildTask_def docs_module_def
        example_garden_def)
  show ?thesis
    using a b d getBuildTasks_needs_build [of "web_params False" ?g]
      getBuildTasks_needs_build [of ?docs ?g]
    by simp
qed

text \<open>
  C4, as the code has it. \<^verbatim>\<open>getDependencies\<close> constructs every dependency task with
  \<^verbatim>\<open>force: this.force\<close>: the dependency Build tasks of a task carry the task's own force
  flag (and its \<^verbatim>\<open>fromWatch\<close> and hot-reload names). So the dependency tasks of a forced
  task are forced as well, and those of a task that is not forced are not.
\<close>

theorem getDependencies_inherit_force:
  "\<forall>d \<in> set (getDependencies g t).
     task_force d = task_force t
     \<and> task_fromWatch d = task_fromWatch t
     \<and> task_hotReloadServiceNames d = task_hotReloadServiceNames t"
  by (auto simp: getDependencies_eq)

theorem getDependencies_inherit_force_witness:
  "map (\<lambda>d. (m_name (task_module d), task_force d))
     (getDependencies (example_garden [''v-lib''] False) (BuildTask (web_params True)))
     = [(''lib'', True)]"
proof -
  let ?ds = "getDependencies (example_garden [''v-lib''] False) (BuildTask (web_params True))"
  have n: "map (\<lambda>d. m_name (task_module d)) ?ds = [''lib'']"
    by (simp add: getDependencies_def getName_def BuildTask_def web_params_def web_module_def
        lib_module_def example_garden_def)
  then obtain d where d: "?ds = [d]"
    by auto
  with getDependencies_inherit_force
      [of "example_garden [''v-lib''] False" "BuildTask (web_params True)"]
  have "task_force d = True"
    by (simp add: example_force)
  with n d show ?thesis
    by simp
qed

text \<open>
  C4 as stated fails: the only dependency task of the forced task for \<open>web\<close> is a
  forced task for \<open>lib\<close>, and running it invokes the build action although the status
  probe would answer ready for \<open>lib\<close>'s version.
\<close>

theorem getDependencies_not_forced_counterexample:
  "task_force (BuildTask (web_params True))
   \<and> map (\<lambda>d. (m_name (task_module d), task_force d))
        (getDependencies (example_garden [''v-lib''] False) (BuildTask (web_params True)))
       = [(''lib'', True)]
   \<and> ready (projr (fst (getBuildStatus (example_garden [''v-lib''] False) lib_module [])))
   \<and> CallBuild ''lib'' None \<in> set (run_events (example_garden [''v-lib''] False)
        (hd (getDependencies (example_garden [''v-lib''] False) (BuildTask (web_params True))))
        empty_world)"
  by (simp add: getDependencies_def getName_def BuildTask_def web_params_def web_module_def
      lib_module_def example_garden_def run_events_def process_def process_build_def call_def
      emit_def raised_def empty_world_def add_paths_def Let_def)

section \<open>KeyedSet\<close>

lemma js_map_set_keys:
  "map fst (js_map_set k v m) = (if k \<in> set (map fst m) then map fst m else map fst m @ [k])"
  by (induction m) (force simp: image_iff)+

lemma js_map_set_length:
  "length (js_map_set k v m) = (if k \<in> set (map fst m) then length m else Suc (length m))"
  by (induction m) (force simp: image_iff)+

lemma js_map_set_entries:
  "distinct (map fst m) \<Longrightarrow>
     set (js_map_set k v m) = insert (k, v) {e \<in> set m. fst e \<noteq> k}"
  by (induction m) (force simp: image_iff split: if_splits)+

lemma keyed_inv_add: "keyed_inv s \<Longrightarrow> keyed_inv (add v s)"
  by (auto simp: keyed_inv_def add_def js_map_set_keys js_map_set_entries list_all_iff)

lemma keyed_inv_delete: "keyed_inv s \<Longrightarrow> keyed_inv (snd (delete v s))"
  by (auto simp: keyed_inv_def delete_def js_map_delete_def distinct_map_filter list_all_iff)

lemma first_occurrences_filter:
  "filter P (first_occurrences xs) = first_occurrences (filter P xs)"
proof (induction xs)
  case Nil
  show ?case by simp
next
  case (Cons x xs)
  show ?case
  proof (cases "P x")
    case True
    have "filter P (filter (\<lambda>y. y \<noteq> x) (first_occurrences xs))
            = filter (\<lambda>y. y \<noteq> x) (filter P (first_occurrences xs))"
      by (simp add: conj_commute)
    with True Cons show ?thesis by simp
  next
    case False
    have "filter P (filter (\<lambda>y. y \<noteq> x) (first_occurrences xs)) = filter P (first_occurrences xs)"
      using False by (auto intro: filter_cong)
    with False Cons show ?thesis by simp
  qed
qed

lemma first_occurrences_repeat:
  "k \<in> set xs \<Longrightarrow> first_occurrences (xs @ k # ys) = first_occurrences (xs @ ys)"
proof (induction xs)
  case Nil
  then show ?case by simp
next
  case (Cons x xs)
  show ?case
  proof (cases "x = k")
    case True
    then show ?thesis by (simp add: first_occurrences_filter)
  next
    case False
    with Cons show ?thesis by simp
  qed
qed

lemma first_occurrences_distinct: "distinct xs \<Longrightarrow> first_occurrences xs = xs"
  by (induction xs) (auto intro: filter_True)

lemma keyFn_fold_add: "keyFn (fold add vs s) = keyFn s"
  by (induction vs arbitrary: s) (simp_all add: add_def)

lemma fold_add_keys:
  "keyed_inv s \<Longrightarrow>
     map fst (ks_map (fold add vs s))
       = first_occurrences (map fst (ks_map s) @ map (keyFn s) vs)"
proof (induction vs arbitrary: s)
  case Nil
  then show ?case by (simp add: keyed_inv_def first_occurrences_distinct)
next
  case (Cons v vs)
  have k: "keyFn (add v s) = keyFn s" by (simp add: add_def)
  from Cons.IH [OF keyed_inv_add [OF Cons.prems], of ] show ?case
    by (simp add: k) (simp add: add_def js_map_set_keys first_occurrences_repeat)
qed

lemma keyed_inv_keys: "keyed_inv s \<Longrightarrow> map (keyFn s) (entries s) = map fst (ks_map s)"
  by (auto simp: keyed_inv_def entries_def js_map_values_def list_all_iff)

lemma keyed_inv_fold_add: "keyed_inv s \<Longrightarrow> keyed_inv (fold add vs s)"
  by (induction vs arbitrary: s) (simp_all add: keyed_inv_add)

lemma keyed_inv_properties:
  assumes "keyed_inv s"
  shows "keyed_inv (KeyedSet f)
       \<and> keyed_inv (add v s) \<and> keyed_inv (snd (delete v s)) \<and> keyed_inv (clear s)
       \<and> has v (add v s) \<and> hasKey (keyFn s v) (add v s)
       \<and> distinct (map (keyFn s) (entries s))
       \<and> size_ks (add v s) = (if has v s then size_ks s else Suc (size_ks s))
       \<and> (keyFn s v' = keyFn s v \<longrightarrow>
             size_ks (add v' (add v s)) = size_ks (add v s)
             \<and> v' \<in> set (entries (add v' (add v s)))
             \<and> (v \<noteq> v' \<longrightarrow> v \<notin> set (entries (add v' (add v s)))))
       \<and> map (keyFn s) (entries (add v s))
           = (if has v s then map (keyFn s) (entries s) else map (keyFn s) (entries s) @ [keyFn s v])
       \<and> entries (snd (delete v s)) = filter (\<lambda>x. keyFn s x \<noteq> keyFn s v) (entries s)
       \<and> fst (delete v s) = has v s
       \<and> entries (clear s) = [] \<and> size_ks (clear s) = 0
       \<and> map f (entries (fold add vs (KeyedSet f))) = first_occurrences (map f vs)"
proof -
  have new: "keyed_inv (KeyedSet f)"
    by (simp add: keyed_inv_def KeyedSet_def)
  have inv_add: "keyed_inv (add v s)"
    using assms by (rule keyed_inv_add)
  have has_add: "has v (add v s) \<and> hasKey (keyFn s v) (add v s)"
    by (simp add: has_def hasKey_def add_def js_map_has_def js_map_set_keys)
  have one_per_key: "distinct (map (keyFn s) (entries s))"
    using assms by (simp add: keyed_inv_keys) (simp add: keyed_inv_def)
  have size_add: "size_ks (add w s) = (if has w s then size_ks s else Suc (size_ks s))" for w
    by (simp add: size_ks_def js_map_size_def add_def has_def js_map_has_def js_map_set_length)
  have again: "size_ks (add v' (add v s)) = size_ks (add v s)
       \<and> v' \<in> set (entries (add v' (add v s)))
       \<and> (v \<noteq> v' \<longrightarrow> v \<notin> set (entries (add v' (add v s))))"
    if same: "keyFn s v' = keyFn s v"
  proof -
    have d: "distinct (map fst (ks_map (add v s)))"
      using inv_add by (simp add: keyed_inv_def)
    have files: "\<forall>e \<in> set (ks_map (add v s)). fst e = keyFn s (snd e)"
      using inv_add by (simp add: keyed_inv_def list_all_iff add_def)
    have es: "set (ks_map (add v' (add v s)))
                = insert (keyFn s v', v') {e \<in> set (ks_map (add v s)). fst e \<noteq> keyFn s v'}"
      using js_map_set_entries [OF d, of "keyFn s v'" v'] by (simp add: add_def)
    have sz: "size_ks (add v' (add v s)) = size_ks (add v s)"
      using same
      by (simp add: size_ks_def js_map_size_def add_def js_map_set_length js_map_set_keys)
    have inn: "v' \<in> set (entries (add v' (add v s)))"
      by (simp add: entries_def js_map_values_def es)
    have out: "v \<notin> set (entries (add v' (add v s)))" if "v \<noteq> v'"
    proof
      assume "v \<in> set (entries (add v' (add v s)))"
      then obtain k where "(k, v) \<in> set (ks_map (add v' (add v s)))"
        by (auto simp: entries_def js_map_values_def)
      with es that have "(k, v) \<in> set (ks_map (add v s))" and "k \<noteq> keyFn s v'"
        by auto
      with files same show False
        by auto
    qed
    from sz inn out show ?thesis
      by simp
  qed
  have order_add: "map (keyFn s) (entries (add v s))
           = (if has v s then map (keyFn s) (entries s) else map (keyFn s) (entries s) @ [keyFn s v])"
    using keyed_inv_keys [OF inv_add] keyed_inv_keys [OF assms]
    by (simp add: add_def has_def js_map_has_def js_map_set_keys)
  have del: "entries (snd (delete v s)) = filter (\<lambda>x. keyFn s x \<noteq> keyFn s v) (entries s)"
    using assms
    by (auto simp: entries_def js_map_values_def delete_def js_map_delete_def keyed_inv_def
        list_all_iff filter_map comp_def intro!: arg_cong [where f = "map snd"] filter_cong)
  have del_result: "fst (delete v s) = has v s"
    by (simp add: delete_def js_map_delete_def has_def)
  have built: "map f (entries (fold add vs (KeyedSet f))) = first_occurrences (map f vs)"
    using keyed_inv_keys [OF keyed_inv_fold_add [OF new, of vs]] fold_add_keys [OF new, of vs]
    by (simp add: keyFn_fold_add) (simp add: KeyedSet_def)
  show ?thesis
    using new inv_add keyed_inv_delete [OF assms] has_add one_per_key size_add again order_add
      del del_result built
    by (simp add: keyed_inv_def clear_def entries_def js_map_values_def size_ks_def
        js_map_size_def)
qed

text \<open>
  C10. A KeyedSet holds at most one member per key at all times, that is after any
  sequence of \<^verbatim>\<open>add\<close>, \<^verbatim>\<open>delete\<close> and \<^verbatim>\<open>clear\<close> on a new set. After \<^verbatim>\<open>add(v)\<close>
  both \<^verbatim>\<open>has(v)\<close> and \<^verbatim>\<open>hasKey(keyFn(v))\<close> hold. Adding a value whose key is present
  replaces the member of that key where it stands and leaves the size as it is; adding a
  value with a new key appends it. \<^verbatim>\<open>delete\<close> removes the member of the value's key
  and nothing else, \<^verbatim>\<open>clear\<close> removes all. So \<^verbatim>\<open>entries()\<close> lists the members in the
  order in which their keys were inserted: for a set built by \<^verbatim>\<open>add\<close> alone, the keys
  of the entries are the keys of the added values in the order of their first occurrence.
\<close>

theorem KeyedSet_deduplicates_by_key:
  fixes f :: "'v \<Rightarrow> string" and calls :: "'v keyed_set_call list"
  defines "s \<equiv> after_calls f calls"
  shows "keyFn s = f
       \<and> distinct (map f (entries s))
       \<and> size_ks s = length (entries s)
       \<and> has v (add v s) \<and> hasKey (f v) (add v s)
       \<and> size_ks (add v s) = (if has v s then size_ks s else Suc (size_ks s))
       \<and> (f v' = f v \<longrightarrow>
             size_ks (add v' (add v s)) = size_ks (add v s)
             \<and> v' \<in> set (entries (add v' (add v s)))
             \<and> (v \<noteq> v' \<longrightarrow> v \<notin> set (entries (add v' (add v s)))))
       \<and> map f (entries (add v s))
           = (if has v s then map f (entries s) else map f (entries s) @ [f v])
       \<and> entries (snd (delete v s)) = filter (\<lambda>x. f x \<noteq> f v) (entries s)
       \<and> fst (delete v s) = has v s
       \<and> entries (clear s) = [] \<and> size_ks (clear s) = 0
       \<and> map f (entries (fold add vs (KeyedSet f))) = first_occurrences (map f vs)"
proof -
  have step: "keyed_inv (fold do_call cs s0) \<and> keyFn (fold do_call cs s0) = keyFn s0"
    if "keyed_inv s0" for cs and s0 :: "'v keyed_set"
    using that
  proof (induction cs arbitrary: s0)
    case Nil
    then show ?case by simp
  next
    case (Cons c cs)
    have "keyed_inv (do_call c s0)"
      using Cons.prems
      by (cases c) (simp_all add: keyed_inv_add keyed_inv_delete, simp add: keyed_inv_def clear_def)
    moreover have "keyFn (do_call c s0) = keyFn s0"
      by (cases c) (simp_all add: add_def delete_def clear_def js_map_delete_def)
    ultimately show ?case
      using Cons.IH [of "do_call c s0"] by simp
  qed
  have "keyed_inv (KeyedSet f)"
    by (simp add: keyed_inv_def KeyedSet_def)
  from step [OF this, of calls] have inv: "keyed_inv s" and key: "keyFn s = f"
    by (simp_all add: s_def after_calls_def KeyedSet_def)
  from keyed_inv_properties [OF inv, of f v v' vs] key show ?thesis
    by (simp add: size_ks_def js_map_size_def entries_def js_map_values_def)
qed

theorem KeyedSet_deduplicates_by_key_witness:
  "after_calls fst [Add (''lib'', 1 :: nat), Add (''web'', 1), Delete (''api'', 1)]
     = \<lparr> keyFn = fst, ks_map = [(''lib'', (''lib'', 1)), (''web'', (''web'', 1))] \<rparr>
   \<and> entries (add (''lib'', 2 :: nat)
        (after_calls fst [Add (''lib'', 1 :: nat), Add (''web'', 1), Delete (''api'', 1)]))
       = [(''lib'', 2), (''web'', 1)]
   \<and> size_ks (add (''lib'', 2 :: nat)
        (after_calls fst [Add (''lib'', 1 :: nat), Add (''web'', 1), Delete (''api'', 1)])) = 2"
proof -
  let ?s = "after_calls fst [Add (''lib'', 1 :: nat), Add (''web'', 1), Delete (''api'', 1)]"
  have s: "?s = \<lparr> keyFn = fst, ks_map = [(''lib'', (''lib'', 1)), (''web'', (''web'', 1))] \<rparr>"
    by (simp add: after_calls_def KeyedSet_def add_def delete_def js_map_delete_def)
  have e: "entries (add (''lib'', 2 :: nat) ?s) = [(''lib'', 2), (''web'', 1)]"
    unfolding s by (simp add: entries_def js_map_values_def add_def)
  have h: "has (''lib'', 2 :: nat) ?s"
    unfolding s by (simp add: has_def js_map_has_def)
  have z: "size_ks ?s = 2"
    unfolding s by (simp add: size_ks_def js_map_size_def)
  from KeyedSet_deduplicates_by_key
    [of fst "[Add (''lib'', 1 :: nat), Add (''web'', 1), Delete (''api'', 1)]" "(''lib'', 2)"
      "(''lib'', 2)" "[]"]
  have "size_ks (add (''lib'', 2 :: nat) ?s) = 2"
    using h z by simp
  with s e show ?thesis
    by simp
qed

section \<open>Resolving a module configuration\<close>

lemma validate_bases_build:
  "validate_bases r bases config = Inr config' \<Longrightarrow> cfg_build config' = cfg_build config"
proof (induction bases arbitrary: config)
  case Nil
  then show ?case by simp
next
  case (Cons base bases)
  from Cons.prems obtain c2 where
    rest: "validate_bases r bases c2 = Inr config'" and same: "cfg_build c2 = cfg_build config"
    by (auto split: option.splits sum.splits)
  from Cons.IH [OF rest] same show ?case by simp
qed

lemma qualify_names_build: "cfg_build (qualify_names r config) = cfg_build config"
  by (simp add: qualify_names_def Let_def)

lemma configure_and_validate_build:
  assumes "configure_and_validate r description config = Inr config'"
    and "\<And>c1 c2. r_configureModule r c1 = Inr c2 \<Longrightarrow> cfg_build c2 = cfg_build c1"
  shows "cfg_build config' = cfg_build config"
  using assms
  by (auto simp: configure_and_validate_def Let_def qualify_names_build
      split: option.splits sum.splits if_splits dest!: validate_bases_build)

text \<open>
  The guard of line 39. A type that is neither registered nor the name of a member
  inherited from \<^verbatim>\<open>Object.prototype\<close> reads as \<^verbatim>\<open>undefined\<close> at line 37, and
  \<^verbatim>\<open>resolveModuleConfig\<close> fails with a ConfigurationError whose message is what
  \<^verbatim>\<open>deline\<close> makes of the template of lines 43 to 46 with the type and the path of the
  configuration file (or of the module, when it has no configuration file path) relative
  to the project root interpolated.
\<close>

lemma resolveModuleConfig_unrecognized_type:
  fixes r :: "('sch, 'spec, 'out, 'sub, 'ctx) resolver"
  defines "ctx opts \<equiv> (case opts_configContext opts of
                          None \<Rightarrow> r_getModuleConfigContext r | Some c \<Rightarrow> c)"
  assumes "r_resolveTemplateStrings r config (ctx opts) (opts\<lparr> opts_configContext := Some (ctx opts) \<rparr>)
             = Inr c"
    and "r_getModuleTypeDefinitions r (cfg_type c) = None"
    and "cfg_type c \<notin> set object_prototype_members"
  shows "resolveModuleConfig r config opts =
           Inl (GardenError ConfigurationError
                  (r_deline r unrecognized_module_type_template
                     [cfg_type c, r_relative r (r_projectRoot r) (configPath_or_path c)]))"
  using assms(2,3,4) unfolding ctx_def
  by (simp add: resolveModuleConfig_def Let_def unrecognized_module_type_message_def
      get_property_def)

lemma example_unrecognized_type:
  "resolveModuleConfig example_resolver (example_config ''contaner'') \<lparr> opts_configContext = None \<rparr>
     = Inl (GardenError ConfigurationError
         (''Unrecognized module type '' @ [CHR 0x27] @ ''contaner'' @ [CHR 0x27] @
          '' (defined at web/garden.yml). Are you missing a provider configuration?''))"
proof -
  let ?opts = "\<lparr> opts_configContext = None \<rparr> :: nat module_config_resolve_opts"
  have t: "r_resolveTemplateStrings example_resolver (example_config ''contaner'')
             (case opts_configContext ?opts of
                None \<Rightarrow> r_getModuleConfigContext example_resolver | Some c \<Rightarrow> c)
             (?opts\<lparr> opts_configContext := Some
                (case opts_configContext ?opts of
                   None \<Rightarrow> r_getModuleConfigContext example_resolver | Some c \<Rightarrow> c) \<rparr>)
             = Inr (example_config ''contaner'')"
    by (simp add: example_resolver_def)
  have n: "r_getModuleTypeDefinitions example_resolver (cfg_type (example_config ''contaner'')) = None"
    by (simp add: example_resolver_def example_config_def)
  have i: "cfg_type (example_config ''contaner'') \<notin> set object_prototype_members"
    by (simp add: example_config_def object_prototype_members_def)
  have p: "r_relative example_resolver (r_projectRoot example_resolver)
             (configPath_or_path (example_config ''contaner'')) = ''web/garden.yml''"
    by (simp add: example_resolver_def example_config_def configPath_or_path_def)
  have ty: "cfg_type (example_config ''contaner'') = ''contaner''"
    by (simp add: example_config_def)
  have d: "r_deline example_resolver unrecognized_module_type_template
             [''contaner'', ''web/garden.yml'']
           = ''Unrecognized module type '' @ [CHR 0x27] @ ''contaner'' @ [CHR 0x27] @
             '' (defined at web/garden.yml). Are you missing a provider configuration?''"
    by (simp add: example_resolver_def example_tag_def unrecognized_module_type_template_def)
  from resolveModuleConfig_unrecognized_type [OF t n i] show ?thesis
    by (simp add: p ty d)
qed

text \<open>
  A type that is not registered but is the name of a member inherited from
  \<^verbatim>\<open>Object.prototype\<close> reads as that member at line 37: the guard of line 39 does not
  fire, the error of lines 42 to 48 is not raised, and \<^verbatim>\<open>resolveModuleConfig\<close> goes on
  with the base schema validation of the normalized configuration and the steps after
  it, as for a module type without schemas.
\<close>

lemma resolveModuleConfig_inherited_member:
  fixes r :: "('sch, 'spec, 'out, 'sub, 'ctx) resolver"
  defines "ctx opts \<equiv> (case opts_configContext opts of
                          None \<Rightarrow> r_getModuleConfigContext r | Some c \<Rightarrow> c)"
  assumes "r_resolveTemplateStrings r config (ctx opts) (opts\<lparr> opts_configContext := Some (ctx opts) \<rparr>)
             = Inr c"
    and "r_getModuleTypeDefinitions r (cfg_type c) = None"
    and "cfg_type c \<in> set object_prototype_members"
  shows "resolveModuleConfig r config opts =
           (case r_validateConfig r (normalize_build_dependencies c) (r_moduleConfigSchema r)
                   \<lparr> va_configType = Some ''module'',
                     va_name = Some (cfg_name (normalize_build_dependencies c)),
                     va_path = cfg_path (normalize_build_dependencies c),
                     va_projectRoot = r_projectRoot r, va_ErrorClass = None \<rparr> of
              Inl err \<Rightarrow> Inl err
            | Inr c4 \<Rightarrow> configure_and_validate r (InheritedMember (cfg_type c)) c4)"
  using assms(2,3,4) unfolding ctx_def
  by (simp add: resolveModuleConfig_def Let_def get_property_def description_schema_def)

text \<open>
  C9. Every module configuration whose type has no registered module type definition is
  to fail with a ConfigurationError that reports the path of the configuration. The code
  does not do so for the type \<^verbatim>\<open>constructor\<close>: in a project whose only registered module
  type is \<^verbatim>\<open>container\<close>, the configuration of module \<open>web\<close> with type
  \<^verbatim>\<open>constructor\<close> is not rejected as of an unrecognized module type; with validations
  and a \<^verbatim>\<open>configureModule\<close> handler that accept what they are given it is returned, its
  build dependencies normalized, as a valid configuration.
\<close>

theorem resolveModuleConfig_constructor_type_accepted:
  "r_getModuleTypeDefinitions example_resolver (cfg_type (example_config ''constructor'')) = None
   \<and> resolveModuleConfig example_resolver (example_config ''constructor'')
        \<lparr> opts_configContext = None \<rparr>
     = Inr ((example_config ''constructor'')
         \<lparr> cfg_build := Some \<lparr> build_dependencies = Some
             [DepObject \<lparr> dep_name = ''lib'', dep_copy = Some [] \<rparr>,
              DepObject \<lparr> dep_name = ''base'',
                dep_copy = Some [\<lparr> copy_source = ''dist'', copy_target = ''vendor'' \<rparr>] \<rparr>] \<rparr> \<rparr>)"
  by (simp add: resolveModuleConfig_def example_resolver_def example_config_def Let_def
      get_property_def object_prototype_members_def description_schema_def
      description_moduleOutputsSchema_def normalize_build_dependencies_def
      configure_and_validate_def qualify_names_def truthy_def)

lemma resolveModuleConfig_build_section:
  fixes r :: "('sch, 'spec, 'out, 'sub, 'ctx) resolver"
  defines "ctx opts \<equiv> (case opts_configContext opts of
                          None \<Rightarrow> r_getModuleConfigContext r | Some c \<Rightarrow> c)"
  assumes "r_resolveTemplateStrings r config (ctx opts) (opts\<lparr> opts_configContext := Some (ctx opts) \<rparr>)
             = Inr c"
    and "resolveModuleConfig r config opts = Inr result"
    and "\<And>c1 sch args c2. r_validateConfig r c1 sch args = Inr c2 \<Longrightarrow> cfg_build c2 = cfg_build c1"
    and "\<And>c1 c2. r_configureModule r c1 = Inr c2 \<Longrightarrow> cfg_build c2 = cfg_build c1"
    and "cfg_build c = Some b"
    and "build_dependencies b = Some deps"
  shows "cfg_build result
           = Some (b\<lparr> build_dependencies := Some
               (map (\<lambda>dep. case dep of
                             DepName n \<Rightarrow> DepObject \<lparr> dep_name = n, dep_copy = Some [] \<rparr>
                           | DepObject d \<Rightarrow> DepObject d) deps) \<rparr>)"
proof -
  let ?norm = "\<lambda>dep. case dep of
                  DepName n \<Rightarrow> DepObject \<lparr> dep_name = n, dep_copy = Some [] \<rparr>
                | DepObject d \<Rightarrow> DepObject d"
  have "\<exists>description c2 c4.
          cfg_build c2 = cfg_build c
          \<and> r_validateConfig r (normalize_build_dependencies c2) (r_moduleConfigSchema r)
               \<lparr> va_configType = Some ''module'',
                 va_name = Some (cfg_name (normalize_build_dependencies c2)),
                 va_path = cfg_path (normalize_build_dependencies c2),
                 va_projectRoot = r_projectRoot r, va_ErrorClass = None \<rparr> = Inr c4
          \<and> configure_and_validate r description c4 = Inr result"
  proof (cases "get_property (r_getModuleTypeDefinitions r) (cfg_type c)")
    case None
    with assms(2,3) show ?thesis
      unfolding ctx_def by (simp add: resolveModuleConfig_def Let_def)
  next
    case (Some description)
    show ?thesis
    proof (cases "description_schema description")
      case None
      with Some assms(2,3) show ?thesis
        unfolding ctx_def
        by (simp add: resolveModuleConfig_def Let_def split: sum.splits) blast
    next
      case (Some sch)
      with \<open>get_property (r_getModuleTypeDefinitions r) (cfg_type c) = Some description\<close>
        assms(2,3)
      obtain spec c4 where
        "r_validateConfig r (normalize_build_dependencies (c\<lparr> cfg_spec := spec \<rparr>))
           (r_moduleConfigSchema r)
           \<lparr> va_configType = Some ''module'',
             va_name = Some (cfg_name (normalize_build_dependencies (c\<lparr> cfg_spec := spec \<rparr>))),
             va_path = cfg_path (normalize_build_dependencies (c\<lparr> cfg_spec := spec \<rparr>)),
             va_projectRoot = r_projectRoot r, va_ErrorClass = None \<rparr> = Inr c4"
        and "configure_and_validate r description c4 = Inr result"
        unfolding ctx_def
        by (auto simp: resolveModuleConfig_def Let_def split: sum.splits)
      moreover have "cfg_build (c\<lparr> cfg_spec := spec \<rparr>) = cfg_build c"
        by simp
      ultimately show ?thesis
        by blast
    qed
  qed
  then obtain description c2 c4 where
    c2: "cfg_build c2 = cfg_build c"
    and c4: "r_validateConfig r (normalize_build_dependencies c2) (r_moduleConfigSchema r)
               \<lparr> va_configType = Some ''module'',
                 va_name = Some (cfg_name (normalize_build_dependencies c2)),
                 va_path = cfg_path (normalize_build_dependencies c2),
                 va_projectRoot = r_projectRoot r, va_ErrorClass = None \<rparr> = Inr c4"
    and res: "configure_and_validate r description c4 = Inr result"
    by blast
  have "cfg_build (normalize_build_dependencies c2)
          = Some (b\<lparr> build_dependencies := Some (map ?norm deps) \<rparr>)"
    using c2 assms(6,7) by (simp add: normalize_build_dependencies_def)
  with assms(4) [OF c4] configure_and_validate_build [OF res assms(5)]
  show ?thesis
    by simp
qed

text \<open>
  C8. \<^verbatim>\<open>resolveModuleConfig\<close> turns every entry of \<^verbatim>\<open>build.dependencies\<close> that is a bare
  name into the object form with that name and an empty copy list, and leaves the entries
  in object form as they are. The list is the one of the configuration after template
  resolution; the step of lines 69 to 73 normalizes it before the base schema validation.
  The configuration \<^verbatim>\<open>resolveModuleConfig\<close> returns carries the same normalized list
  whenever the base schema validation and the \<^verbatim>\<open>configureModule\<close> handler hand back the
  build section they were given; no other step touches it.
\<close>

theorem resolveModuleConfig_normalizes_build_dependencies:
  fixes r :: "('sch, 'spec, 'out, 'sub, 'ctx) resolver"
  defines "ctx opts \<equiv> (case opts_configContext opts of
                          None \<Rightarrow> r_getModuleConfigContext r | Some c \<Rightarrow> c)"
  assumes "r_resolveTemplateStrings r config (ctx opts) (opts\<lparr> opts_configContext := Some (ctx opts) \<rparr>)
             = Inr c"
    and "cfg_build c = Some b"
    and "build_dependencies b = Some deps"
  shows "\<exists>deps'.
           length deps' = length deps
           \<and> (\<forall>i < length deps.
                 (\<forall>n. deps ! i = DepName n \<longrightarrow>
                        deps' ! i = DepObject \<lparr> dep_name = n, dep_copy = Some [] \<rparr>)
                 \<and> (\<forall>d. deps ! i = DepObject d \<longrightarrow> deps' ! i = DepObject d))
           \<and> cfg_build (normalize_build_dependencies c)
               = Some (b\<lparr> build_dependencies := Some deps' \<rparr>)
           \<and> (\<forall>result.
                 resolveModuleConfig r config opts = Inr result \<longrightarrow>
                 (\<forall>c1 sch args c2. r_validateConfig r c1 sch args = Inr c2 \<longrightarrow>
                                      cfg_build c2 = cfg_build c1) \<longrightarrow>
                 (\<forall>c1 c2. r_configureModule r c1 = Inr c2 \<longrightarrow> cfg_build c2 = cfg_build c1) \<longrightarrow>
                 cfg_build result = Some (b\<lparr> build_dependencies := Some deps' \<rparr>))"
proof -
  let ?norm = "\<lambda>dep. case dep of
                  DepName n \<Rightarrow> DepObject \<lparr> dep_name = n, dep_copy = Some [] \<rparr>
                | DepObject d \<Rightarrow> DepObject d"
  have step: "cfg_build (normalize_build_dependencies c)
                = Some (b\<lparr> build_dependencies := Some (map ?norm deps) \<rparr>)"
    using assms(3,4) by (simp add: normalize_build_dependencies_def)
  have whole: "cfg_build result = Some (b\<lparr> build_dependencies := Some (map ?norm deps) \<rparr>)"
    if "resolveModuleConfig r config opts = Inr result"
      and "\<forall>c1 sch args c2. r_validateConfig r c1 sch args = Inr c2 \<longrightarrow>
                               cfg_build c2 = cfg_build c1"
      and "\<forall>c1 c2. r_configureModule r c1 = Inr c2 \<longrightarrow> cfg_build c2 = cfg_build c1"
    for result
    using resolveModuleConfig_build_section [OF assms(2) [unfolded ctx_def] that(1) _ _ assms(3,4)]
      that(2,3)
    by blast
  from step whole show ?thesis
    by (intro exI [of _ "map ?norm deps"]) simp
qed

lemma example_resolveModuleConfig:
  "resolveModuleConfig example_resolver (example_config ''container'') \<lparr> opts_configContext = None \<rparr>
     = Inr ((example_config ''container'')
         \<lparr> cfg_build := Some \<lparr> build_dependencies = Some
             [DepObject \<lparr> dep_name = ''lib'', dep_copy = Some [] \<rparr>,
              DepObject \<lparr> dep_name = ''base'',
                dep_copy = Some [\<lparr> copy_source = ''dist'', copy_target = ''vendor'' \<rparr>] \<rparr>] \<rparr> \<rparr>)"
  by (simp add: resolveModuleConfig_def example_resolver_def example_config_def Let_def
      get_property_def description_schema_def description_moduleOutputsSchema_def
      normalize_build_dependencies_def configure_and_validate_def qualify_names_def truthy_def)

theorem resolveModuleConfig_normalizes_build_dependencies_witness:
  "map_option build_dependencies
     (cfg_build (projr (resolveModuleConfig example_resolver (example_config ''container'')
        \<lparr> opts_configContext = None \<rparr>)))
     = Some (Some [DepObject \<lparr> dep_name = ''lib'', dep_copy = Some [] \<rparr>,
                   DepObject \<lparr> dep_name = ''base'',
                     dep_copy = Some [\<lparr> copy_source = ''dist'', copy_target = ''vendor'' \<rparr>] \<rparr>])"
proof -
  let ?opts = "\<lparr> opts_configContext = None \<rparr> :: nat module_config_resolve_opts"
  let ?b = "\<lparr> build_dependencies = Some
         [DepName ''lib'',
          DepObject \<lparr> dep_name = ''base'',
                      dep_copy = Some [\<lparr> copy_source = ''dist'', copy_target = ''vendor'' \<rparr>] \<rparr>] \<rparr>"
  have t: "r_resolveTemplateStrings example_resolver (example_config ''container'')
             (case opts_configContext ?opts of
                None \<Rightarrow> r_getModuleConfigContext example_resolver | Some c \<Rightarrow> c)
             (?opts\<lparr> opts_configContext := Some
                (case opts_configContext ?opts of
                   None \<Rightarrow> r_getModuleConfigContext example_resolver | Some c \<Rightarrow> c) \<rparr>)
             = Inr (example_config ''container'')"
    by (simp add: example_resolver_def)
  have v: "r_validateConfig example_resolver c1 sch args = Inr c2 \<Longrightarrow> cfg_build c2 = cfg_build c1"
    for c1 sch args c2
    by (auto simp: example_resolver_def)
  have c: "r_configureModule example_resolver c1 = Inr c2 \<Longrightarrow> cfg_build c2 = cfg_build c1"
    for c1 c2
    by (auto simp: example_resolver_def)
  have b: "cfg_build (example_config ''container'') = Some ?b"
    by (simp add: example_config_def)
  have d: "build_dependencies ?b = Some
         [DepName ''lib'',
          DepObject \<lparr> dep_name = ''base'',
                      dep_copy = Some [\<lparr> copy_source = ''dist'', copy_target = ''vendor'' \<rparr>] \<rparr>]"
    by simp
  let ?deps = "[DepName ''lib'',
          DepObject \<lparr> dep_name = ''base'',
                      dep_copy = Some [\<lparr> copy_source = ''dist'', copy_target = ''vendor'' \<rparr>] \<rparr>]"
  from resolveModuleConfig_normalizes_build_dependencies [OF t b d]
  obtain deps' where
    l: "length deps' = length ?deps"
    and a: "\<forall>i < length ?deps.
              (\<forall>n. ?deps ! i = DepName n \<longrightarrow>
                   deps' ! i = DepObject \<lparr> dep_name = n, dep_copy = Some [] \<rparr>)
              \<and> (\<forall>d. ?deps ! i = DepObject d \<longrightarrow> deps' ! i = DepObject d)"
    and w: "\<forall>result.
          resolveModuleConfig example_resolver (example_config ''container'') ?opts = Inr result \<longrightarrow>
          (\<forall>c1 sch args c2. r_validateConfig example_resolver c1 sch args = Inr c2 \<longrightarrow>
                               cfg_build c2 = cfg_build c1) \<longrightarrow>
          (\<forall>c1 c2. r_configureModule example_resolver c1 = Inr c2 \<longrightarrow>
                     cfg_build c2 = cfg_build c1) \<longrightarrow>
          cfg_build result = Some (?b\<lparr> build_dependencies := Some deps' \<rparr>)"
    by blast
  from w [rule_format, OF example_resolveModuleConfig] v c
  have r: "cfg_build (projr (resolveModuleConfig example_resolver (example_config ''container'') ?opts))
          = Some (?b\<lparr> build_dependencies := Some deps' \<rparr>)"
    by (simp add: example_resolveModuleConfig)
  from a [rule_format, of 0]
  have e0: "deps' ! 0 = DepObject \<lparr> dep_name = ''lib'', dep_copy = Some [] \<rparr>"
    by simp
  from a [rule_format, of 1]
  have e1: "deps' ! 1 = DepObject \<lparr> dep_name = ''base'',
               dep_copy = Some [\<lparr> copy_source = ''dist'', copy_target = ''vendor'' \<rparr>] \<rparr>"
    by simp
  from l obtain x y where "deps' = [x, y]"
    by (cases deps'; cases "tl deps'") auto
  with e0 e1 r show ?thesis
    by simp
qed

section \<open>The serialized dependency list\<close>

lemma digit_char: "d < 10 \<Longrightarrow> is_digit (char_of (48 + d :: nat))"
  by (simp add: is_digit_def)

lemma digits_nonempty: "digits n \<noteq> []"
  by (induction n rule: digits.induct) (subst digits.simps, simp)

lemma digits_are_digits: "list_all is_digit (digits n)"
proof (induction n rule: digits.induct)
  case (1 n)
  show ?case
  proof (cases "n < 10")
    case True
    then show ?thesis by (subst digits.simps) (simp add: digit_char)
  next
    case False
    with 1 show ?thesis by (subst digits.simps) (simp add: digit_char)
  qed
qed

lemma digits_value_snoc:
  "digits_value (ds @ [c]) = 10 * digits_value ds + (of_char c - 48)"
  by (simp add: digits_value_def)

lemma digits_value_digits: "digits_value (digits n) = n"
proof (induction n rule: digits.induct)
  case (1 n)
  show ?case
  proof (cases "n < 10")
    case True
    then show ?thesis by (subst digits.simps) (simp add: digits_value_def)
  next
    case False
    with 1 show ?thesis by (subst digits.simps) (simp add: digits_value_snoc)
  qed
qed

lemma digits_no_leading_zero: "0 < n \<Longrightarrow> hd (digits n) \<noteq> CHR ''0''"
proof (induction n rule: digits.induct)
  case (1 n)
  show ?case
  proof (cases "n < 10")
    case True
    have "(of_char (char_of (48 + n) :: char) :: nat) \<noteq> of_char CHR ''0''"
      using True 1(2) by simp
    then have "char_of (48 + n) \<noteq> CHR ''0''"
      by (simp only: of_char_eq_iff not_False_eq_True)
    with True show ?thesis by (subst digits.simps) simp
  next
    case False
    then have "0 < n div 10" by simp
    with 1 False show ?thesis by (subst digits.simps) (simp add: digits_nonempty)
  qed
qed

lemma digits_single: "length (digits n) > 1 \<Longrightarrow> 0 < n"
  by (cases "n = 0") (simp_all add: digits.simps)

lemma delimited_no_digit: "delimited rest \<Longrightarrow> takeWhile is_digit rest = [] \<and> dropWhile is_digit rest = rest"
  by (cases rest) (auto simp: delimited_def is_digit_def)

lemma digits_prefix:
  assumes "delimited rest"
  shows "takeWhile is_digit (digits n @ rest) = digits n"
    and "dropWhile is_digit (digits n @ rest) = rest"
  using digits_are_digits [of n] delimited_no_digit [OF assms]
  by (simp_all add: list_all_iff takeWhile_append2 dropWhile_append2)

lemma delimited_no_fraction:
  "delimited rest \<Longrightarrow>
     \<not> (case rest of [] \<Rightarrow> False | c # _ \<Rightarrow> c = CHR ''.'' \<or> c = CHR ''e'' \<or> c = CHR ''E'')"
  by (cases rest) (auto simp: delimited_def)

lemma digits_hd: "is_digit (hd (digits n))"
  using digits_are_digits [of n] digits_nonempty [of n]
  by (cases "digits n") simp_all

lemma digits_not_minus: "digits n = c # cs \<Longrightarrow> c \<noteq> CHR ''-''"
  using digits_hd [of n] by (auto simp: is_digit_def)

lemma parse_number_roundtrip:
  assumes "delimited rest"
  shows "parse_number (number_to_string i @ rest) = Some (JNumber i, rest)"
proof -
  have lead: "\<not> (length (digits n) > 1 \<and> hd (digits n) = CHR ''0'')" for n
    using digits_single [of n] digits_no_leading_zero [of n] by blast
  show ?thesis
  proof (cases "i < 0")
    case True
    then have v: "digits_value (digits (nat (- i))) \<noteq> 0" "- int (nat (- i)) = i"
      by (simp_all add: digits_value_digits)
    from True show ?thesis
      using lead [of "nat (- i)"] delimited_no_fraction [OF assms] v
      by (simp add: parse_number_def number_to_string_def Let_def digits_prefix [OF assms]
          digits_nonempty digits_value_digits)
  next
    case False
    obtain c cs where d: "digits (nat i) = c # cs"
      using digits_nonempty [of "nat i"] by (cases "digits (nat i)") auto
    have neg: "(case digits (nat i) @ rest of [] \<Rightarrow> False | c # _ \<Rightarrow> c = CHR ''-'') = False"
      using digits_not_minus [OF d] by (simp add: d)
    from False show ?thesis
      using lead [of "nat i"] delimited_no_fraction [OF assms]
      by (simp add: parse_number_def number_to_string_def Let_def neg digits_prefix [OF assms]
          digits_nonempty digits_value_digits)
  qed
qed

lemma hex_value_hex_digit: "d < 16 \<Longrightarrow> hex_value (hex_digit d) = Some d"
  by (simp add: hex_value_def hex_digit_def Let_def)

lemma hex_value_zero: "hex_value CHR ''0'' = Some 0"
  by (simp add: hex_value_def)

lemma unicode_escape_control:
  assumes "(of_char c :: nat) < 0x20"
  shows "unicode_escape CHR ''0'' CHR ''0'' (hex_digit (of_char c div 16)) (hex_digit (of_char c mod 16))
           = Some [c]"
proof -
  have "(of_char c :: nat) div 16 < 16"
    using assms by simp
  then show ?thesis
    using assms
    by (simp add: unicode_escape_def hex_value_zero hex_value_hex_digit utf8_encode_def)
qed

lemma parse_chars_quote_char:
  assumes "parse_chars text = Some (s, rest)"
  shows "parse_chars (quote_char c @ text) = Some (c # s, rest)"
proof -
  consider (named) "c = CHR 0x22 \<or> c = CHR 0x5C \<or> c = CHR 0x08 \<or> c = CHR 0x0C \<or> c = CHR 0x0A
                     \<or> c = CHR 0x0D \<or> c = CHR 0x09"
    | (control) "\<not> (c = CHR 0x22 \<or> c = CHR 0x5C \<or> c = CHR 0x08 \<or> c = CHR 0x0C \<or> c = CHR 0x0A
                     \<or> c = CHR 0x0D \<or> c = CHR 0x09)" "(of_char c :: nat) < 0x20"
    | (plain) "\<not> (c = CHR 0x22 \<or> c = CHR 0x5C \<or> c = CHR 0x08 \<or> c = CHR 0x0C \<or> c = CHR 0x0A
                     \<or> c = CHR 0x0D \<or> c = CHR 0x09)" "\<not> (of_char c :: nat) < 0x20"
    by blast
  then show ?thesis
  proof cases
    case named
    with assms show ?thesis
      by (auto simp: quote_char_def unescape_def)
  next
    case control
    with assms unicode_escape_control [OF control(2)] show ?thesis
      by (simp add: quote_char_def)
  next
    case plain
    with assms show ?thesis
      by (simp add: quote_char_def)
  qed
qed

lemma parse_chars_roundtrip:
  "parse_chars (concat (map quote_char s) @ CHR 0x22 # rest) = Some (s, rest)"
  by (induction s) (simp_all add: parse_chars_quote_char)

lemma skip_ws_no_ws: "\<not> is_ws c \<Longrightarrow> skip_ws (c # cs) = c # cs"
  by (simp add: skip_ws_def)

lemma js_map_set_new: "k \<notin> fst ` set m \<Longrightarrow> js_map_set k v m = m @ [(k, v)]"
  by (induction m) auto

lemma fold_js_map_set_distinct:
  "distinct (map fst (acc @ ms)) \<Longrightarrow> fold (\<lambda>(k, v) m. js_map_set k v m) ms acc = acc @ ms"
proof (induction ms arbitrary: acc)
  case Nil
  then show ?case by simp
next
  case (Cons m ms)
  obtain k v where m: "m = (k, v)" by (cases m)
  from Cons.prems have new: "k \<notin> fst ` set acc"
    by (auto simp: m)
  from Cons.prems have "distinct (map fst ((acc @ [(k, v)]) @ ms))"
    by (simp add: m)
  from Cons.IH [OF this] show ?case
    by (simp add: m js_map_set_new [OF new])
qed

lemma make_object_distinct: "distinct (map fst ms) \<Longrightarrow> make_object ms = ms"
  using fold_js_map_set_distinct [of "[]" ms] by (simp add: make_object_def)

lemma digits_first: "\<exists>c cs. digits n = c # cs \<and> is_digit c"
  using digits_hd [of n] digits_nonempty [of n] by (cases "digits n") auto

lemma JSON_stringify_first:
  "\<exists>c cs. JSON_stringify v = c # cs \<and> \<not> is_ws c \<and> c \<noteq> CHR '']''"
proof (cases v)
  case (JNumber i)
  obtain c cs where "digits (nat \<bar>i\<bar>) = c # cs" "is_digit c"
    using digits_first by blast
  then show ?thesis
    by (cases "i < 0")
       (auto simp: JNumber number_to_string_def is_ws_def is_digit_def abs_if)
qed (auto simp: is_ws_def quote_json_string_def)

lemma join_Cons: "xs \<noteq> [] \<Longrightarrow> join sep (x # xs) = x @ sep @ join sep xs"
  by (cases xs) simp_all

lemma parse_elements_roundtrip:
  assumes "xs \<noteq> []"
    and "\<And>x n rest. x \<in> set xs \<Longrightarrow> delimited rest \<Longrightarrow> parse_depth x \<le> n \<Longrightarrow>
           parse_value n (JSON_stringify x @ rest) = Some (x, rest)"
    and "sum_list (map (\<lambda>x. Suc (parse_depth x)) xs) \<le> n"
  shows "parse_elements n (join '','' (map JSON_stringify xs) @ CHR '']'' # rest) = Some (xs, rest)"
  using assms
proof (induction xs arbitrary: n rule: list_nonempty_induct)
  case (single x)
  from single(2) obtain m where n: "n = Suc m" and m: "parse_depth x \<le> m"
    by (cases n) auto
  have "parse_value m (JSON_stringify x @ CHR '']'' # rest) = Some (x, CHR '']'' # rest)"
    using single(1) [of x "CHR '']'' # rest" m] m by (simp add: delimited_def)
  then show ?case
    by (simp add: n skip_ws_no_ws is_ws_def)
next
  case (cons x xs)
  from cons(4) obtain m where n: "n = Suc m" and m: "parse_depth x \<le> m"
    and ms: "sum_list (map (\<lambda>x. Suc (parse_depth x)) xs) \<le> m"
    by (cases n) auto
  let ?tail = "join '','' (map JSON_stringify xs) @ CHR '']'' # rest"
  have v: "parse_value m (JSON_stringify x @ CHR '','' # ?tail) = Some (x, CHR '','' # ?tail)"
    using cons(3) [of x "CHR '','' # ?tail" m] m by (simp add: delimited_def)
  have t: "parse_elements m ?tail = Some (xs, rest)"
    using cons(2) [OF _ ms] cons(3) by simp
  from cons(1) have "map JSON_stringify xs \<noteq> []" by simp
  then show ?case
    using v t by (simp add: n join_Cons skip_ws_no_ws is_ws_def)
qed

lemma member_text_append:
  "member_text m @ text
     = CHR 0x22 # concat (map quote_char (fst m)) @ CHR 0x22 # CHR '':'' # JSON_stringify (snd m) @ text"
  by (simp add: member_text_def quote_json_string_def)

lemma parse_members_roundtrip:
  assumes "ms \<noteq> []"
    and "\<And>m n rest. m \<in> set ms \<Longrightarrow> delimited rest \<Longrightarrow> parse_depth (snd m) \<le> n \<Longrightarrow>
           parse_value n (JSON_stringify (snd m) @ rest) = Some (snd m, rest)"
    and "sum_list (map (\<lambda>m. Suc (parse_depth (snd m))) ms) \<le> n"
  shows "parse_members n (join '','' (map member_text ms) @ CHR ''}'' # rest) = Some (ms, rest)"
  using assms
proof (induction ms arbitrary: n rule: list_nonempty_induct)
  case (single x)
  from single(2) obtain m where n: "n = Suc m" and m: "parse_depth (snd x) \<le> m"
    by (cases n) auto
  have "parse_value m (JSON_stringify (snd x) @ CHR ''}'' # rest) = Some (snd x, CHR ''}'' # rest)"
    using single(1) [of x "CHR ''}'' # rest" m] m by (simp add: delimited_def)
  then show ?case
    by (simp add: n member_text_append skip_ws_no_ws is_ws_def parse_chars_roundtrip)
next
  case (cons x xs)
  from cons(4) obtain m where n: "n = Suc m" and m: "parse_depth (snd x) \<le> m"
    and ms: "sum_list (map (\<lambda>m. Suc (parse_depth (snd m))) xs) \<le> m"
    by (cases n) auto
  let ?tail = "join '','' (map member_text xs) @ CHR ''}'' # rest"
  have v: "parse_value m (JSON_stringify (snd x) @ CHR '','' # ?tail) = Some (snd x, CHR '','' # ?tail)"
    using cons(3) [of x "CHR '','' # ?tail" m] m by (simp add: delimited_def)
  have t: "parse_members m ?tail = Some (xs, rest)"
    using cons(2) [OF _ ms] cons(3) by simp
  from cons(1) have "map member_text xs \<noteq> []" by simp
  then show ?case
    using v t
    by (simp add: n join_Cons member_text_append skip_ws_no_ws is_ws_def parse_chars_roundtrip)
qed

lemma JSON_stringify_object:
  "JSON_stringify (JObject ms) = CHR ''{'' # join '','' (map member_text ms) @ ''}''"
proof -
  have "(\<lambda>(k, v). quote_json_string k @ '':'' @ JSON_stringify v) = member_text"
    by (auto simp: fun_eq_iff member_text_def)
  then show ?thesis
    by simp
qed

lemma parse_value_roundtrip:
  "wf_js v \<Longrightarrow> delimited rest \<Longrightarrow> parse_depth v \<le> n \<Longrightarrow>
     parse_value n (JSON_stringify v @ rest) = Some (v, rest)"
proof (induction v arbitrary: rest n)
  case JNull
  then show ?case
    by (cases n) (simp_all add: skip_ws_no_ws is_ws_def)
next
  case (JBool b)
  then show ?case
    by (cases n) (simp_all add: skip_ws_no_ws is_ws_def)
next
  case (JNumber i)
  obtain c cs where c: "number_to_string i = c # cs" "is_digit c \<or> c = CHR ''-''"
    using digits_first [of "nat \<bar>i\<bar>"]
    by (cases "i < 0") (auto simp: number_to_string_def abs_if)
  from parse_number_roundtrip [OF JNumber(2), of i]
  have p: "parse_number (c # cs @ rest) = Some (JNumber i, rest)"
    by (simp add: c)
  from c(2) have "\<not> is_ws c" "c \<noteq> CHR ''n''" "c \<noteq> CHR ''t''" "c \<noteq> CHR ''f''" "c \<noteq> CHR 0x22"
    "c \<noteq> CHR ''[''" "c \<noteq> CHR ''{''"
    by (auto simp: is_digit_def is_ws_def)
  with JNumber(3) p show ?case
    by (cases n) (simp_all add: c skip_ws_no_ws)
next
  case (JString s)
  then show ?case
    by (cases n) (simp_all add: quote_json_string_def skip_ws_no_ws is_ws_def parse_chars_roundtrip)
next
  case (JArray xs)
  from JArray(4) obtain m where n: "n = Suc m"
    and m: "sum_list (map (\<lambda>x. Suc (parse_depth x)) xs) \<le> m"
    by (cases n) auto
  show ?case
  proof (cases "xs = []")
    case True
    then show ?thesis
      by (simp add: n skip_ws_no_ws is_ws_def)
  next
    case False
    have ih: "parse_value k (JSON_stringify x @ r) = Some (x, r)"
      if "x \<in> set xs" "delimited r" "parse_depth x \<le> k" for x k r
      using JArray(1) [OF that(1) _ that(2,3)] JArray(2) that(1)
      by (simp add: list_all_iff)
    from False obtain y ys where xs: "xs = y # ys"
      by (cases xs) auto
    obtain c cs where c: "JSON_stringify y = c # cs" "\<not> is_ws c" "c \<noteq> CHR '']''"
      using JSON_stringify_first by blast
    have first: "\<exists>d ds. skip_ws (join '','' (map JSON_stringify xs) @ CHR '']'' # rest) = d # ds
                   \<and> d \<noteq> CHR '']''"
      using c by (cases ys) (simp_all add: xs skip_ws_no_ws)
    from parse_elements_roundtrip [OF False ih m, of rest] first show ?thesis
      by (auto simp: n skip_ws_no_ws is_ws_def)
  qed
next
  case (JObject ms)
  from JObject(4) obtain m where n: "n = Suc m"
    and m: "sum_list (map (\<lambda>m. Suc (parse_depth (snd m))) ms) \<le> m"
    by (cases n) auto
  from JObject(2) have d: "distinct (map fst ms)"
    by simp
  show ?case
  proof (cases "ms = []")
    case True
    then show ?thesis
      by (simp add: n skip_ws_no_ws is_ws_def)
  next
    case False
    have ih: "parse_value k (JSON_stringify (snd x) @ r) = Some (snd x, r)"
      if "x \<in> set ms" "delimited r" "parse_depth (snd x) \<le> k" for x k r
      using JObject(1) [of x "snd x" r k] JObject(2) that
      by (cases x) (auto simp: list_all_iff)
    from False obtain y ys where ms: "ms = y # ys"
      by (cases ms) auto
    have first: "\<exists>ds. skip_ws (join '','' (map member_text ms) @ CHR ''}'' # rest) = CHR 0x22 # ds"
      by (cases ys) (simp_all add: ms member_text_append skip_ws_no_ws is_ws_def)
    from parse_members_roundtrip [OF False ih m, of rest] first show ?thesis
      by (auto simp: n JSON_stringify_object skip_ws_no_ws is_ws_def make_object_distinct [OF d]
          simp del: JSON_stringify.simps)
  qed
qed

lemma join_length_bound:
  assumes "\<And>x. x \<in> set xs \<Longrightarrow> f x \<le> length (g x)"
  shows "sum_list (map (\<lambda>x. Suc (f x)) xs) \<le> Suc (length (join [c] (map g xs)))"
  using assms
proof (induction xs)
  case Nil
  then show ?case by simp
next
  case (Cons x xs)
  show ?case
  proof (cases "xs = []")
    case True
    with Cons.prems [of x] show ?thesis by simp
  next
    case False
    then have "map g xs \<noteq> []" by simp
    moreover have "f x \<le> length (g x)"
      using Cons.prems by simp
    moreover have "sum_list (map (\<lambda>x. Suc (f x)) xs) \<le> Suc (length (join [c] (map g xs)))"
      using Cons.IH Cons.prems by simp
    ultimately show ?thesis
      by (simp add: join_Cons)
  qed
qed

lemma parse_depth_le_length: "parse_depth v \<le> length (JSON_stringify v)"
proof (induction v)
  case (JNumber i)
  then show ?case
    using digits_nonempty [of "nat \<bar>i\<bar>"]
    by (cases "digits (nat \<bar>i\<bar>)"; cases "i < 0") (simp_all add: number_to_string_def abs_if)
next
  case (JArray xs)
  from join_length_bound [of xs parse_depth JSON_stringify "CHR '',''"] JArray
  show ?case by simp
next
  case (JObject ms)
  have "parse_depth (snd m) \<le> length (member_text m)" if "m \<in> set ms" for m
    using JObject [of m "snd m"] that by (cases m) (simp add: member_text_def)
  from join_length_bound [of ms "\<lambda>m. parse_depth (snd m)" member_text "CHR '',''"] this
  show ?case
    by (simp add: JSON_stringify_object del: JSON_stringify.simps)
qed (simp_all add: quote_json_string_def)

lemma JSON_parse_stringify: "wf_js v \<Longrightarrow> JSON_parse (JSON_stringify v) = Some v"
  using parse_value_roundtrip [of v "[]" "Suc (length (JSON_stringify v))"]
    parse_depth_le_length [of v]
  by (simp add: JSON_parse_def delimited_def skip_ws_def)

lemma wf_js_of_primitive_map:
  "wf_outputs outputs \<Longrightarrow> wf_js (JObject (map (\<lambda>(k, p). (k, js_of_primitive p)) outputs))"
  by (auto simp: wf_outputs_def list_all_iff js_of_primitive_def comp_def case_prod_unfold
      split: primitive.splits)

lemma wf_js_of_dependency:
  assumes "wf_outputs (rd_outputs d)"
  shows "wf_js (js_of_dependency d)"
  using wf_js_of_primitive_map [OF assms] by (simp add: js_of_dependency_def)

lemma wf_js_of_dependencies:
  "list_all (\<lambda>d. wf_outputs (rd_outputs d)) ds \<Longrightarrow> wf_js (js_of_dependencies ds)"
  by (simp add: js_of_dependencies_def list_all_iff wf_js_of_dependency)

lemma prepareRuntimeContext_GARDEN_DEPENDENCIES:
  "envVars (prepareRuntimeContext params) ''GARDEN_DEPENDENCIES''
     = Some (PString (JSON_stringify (js_of_dependencies (dependencies (prepareRuntimeContext params)))))"
  by (simp add: prepareRuntimeContext_def Let_def)

text \<open>
  C2. In every runtime context \<^verbatim>\<open>prepareRuntimeContext\<close> produces, the variable
  \<^verbatim>\<open>GARDEN_DEPENDENCIES\<close> holds a string, and \<^verbatim>\<open>JSON.parse\<close> of that string succeeds and
  yields exactly the value of the context's \<^verbatim>\<open>dependencies\<close> sequence: the same
  entries in the same order, each with the same \<^verbatim>\<open>moduleName\<close>, \<^verbatim>\<open>name\<close>, \<^verbatim>\<open>outputs\<close>,
  \<^verbatim>\<open>type\<close> and \<^verbatim>\<open>version\<close>. This holds for every dependency set, empty or not, whose
  outputs are well-formed outputs mappings.
\<close>

theorem GARDEN_DEPENDENCIES_roundtrip:
  assumes "list_all (\<lambda>d. wf_outputs (rd_outputs d)) (dependencies (prepareRuntimeContext params))"
  shows "\<exists>str. envVars (prepareRuntimeContext params) ''GARDEN_DEPENDENCIES'' = Some (PString str)
           \<and> JSON_parse str
               = Some (js_of_dependencies (dependencies (prepareRuntimeContext params)))"
  using JSON_parse_stringify [OF wf_js_of_dependencies [OF assms]]
  by (simp add: prepareRuntimeContext_GARDEN_DEPENDENCIES)

lemma example_dependencies:
  "dependencies (prepareRuntimeContext example_runtime_params)
     = [\<lparr> rd_moduleName = ''module-b'', rd_name = ''module-b'',
          rd_outputs = [(''my-output'', PString ''meep'')], rd_type = BuildDependency,
          rd_version = ''v-b'' \<rparr>,
        \<lparr> rd_moduleName = ''module-b'', rd_name = ''service-b'',
          rd_outputs = [(''port'', PNumber 8080), (''ok'', PBool True)],
          rd_type = ServiceDependency, rd_version = ''v-b'' \<rparr>]"
  by (simp add: prepareRuntimeContext_def example_runtime_params_def outputs_of_def Let_def)

lemma example_envVars:
  "envVars (prepareRuntimeContext example_runtime_params) ''GARDEN_VERSION'' = Some (PString ''v-a'')"
  "envVars (prepareRuntimeContext example_runtime_params) ''GARDEN_VARIABLES_MY_VAR''
     = Some (PString ''foo'')"
  "envVars (prepareRuntimeContext example_runtime_params) ''GARDEN_MODULE_MODULE_B__OUTPUT_MY_OUTPUT''
     = Some (PString ''meep'')"
  "envVars (prepareRuntimeContext example_runtime_params) ''GARDEN_SERVICE_SERVICE_B__OUTPUT_PORT''
     = Some (PNumber 8080)"
  by (simp_all add: prepareRuntimeContext_def example_runtime_params_def outputs_of_def Let_def
      output_env_vars_def env_name_def env_char_def char_of_def bit_Suc_0_iff)

theorem GARDEN_DEPENDENCIES_roundtrip_witness:
  "length (dependencies (prepareRuntimeContext example_runtime_params)) = 2
   \<and> (case envVars (prepareRuntimeContext example_runtime_params) ''GARDEN_DEPENDENCIES'' of
         Some (PString str) \<Rightarrow> JSON_parse str
       | _ \<Rightarrow> None)
     = Some (JArray
         [JObject [(''moduleName'', JString ''module-b''), (''name'', JString ''module-b''),
                   (''outputs'', JObject [(''my-output'', JString ''meep'')]),
                   (''type'', JString ''build''), (''version'', JString ''v-b'')],
          JObject [(''moduleName'', JString ''module-b''), (''name'', JString ''service-b''),
                   (''outputs'', JObject [(''port'', JNumber 8080), (''ok'', JBool True)]),
                   (''type'', JString ''service''), (''version'', JString ''v-b'')]])"
proof -
  have wf: "list_all (\<lambda>d. wf_outputs (rd_outputs d))
              (dependencies (prepareRuntimeContext example_runtime_params))"
    by (simp add: example_dependencies wf_outputs_def)
  from GARDEN_DEPENDENCIES_roundtrip [OF wf] obtain str where
    "envVars (prepareRuntimeContext example_runtime_params) ''GARDEN_DEPENDENCIES''
       = Some (PString str)"
    and "JSON_parse str
       = Some (js_of_dependencies (dependencies (prepareRuntimeContext example_runtime_params)))"
    by blast
  then show ?thesis
    by (simp add: example_dependencies js_of_dependencies_def js_of_dependency_def
        js_of_primitive_def dependency_type_name_def)
qed

end
